theory Spec2Isabelle
  imports Complex_Main
begin

section \<open>Text, exceptions and JSON values\<close>

text \<open>
  A Python \<open>str\<close> is modelled as a \<^typ>\<open>string\<close>, one \<^typ>\<open>char\<close> per code point, so the
  texts of this development are texts over the code points below 256. In that range the
  regular-expression class \<open>\d\<close> is exactly the ten ASCII digits and case-insensitive matching
  of an ASCII word is ASCII case folding. \<open>int\<close> of a run of digits is its decimal value (the
  interpreter's optional limit on the length of such a run is not modelled).
\<close>

datatype exn_class =
  JSONDecodeError | ValueError | AttributeError | TypeError | RecursionError | OtherException

text \<open>
  An exception: its class, as far as the handlers of the source tell classes apart, and the
  text \<open>str(e)\<close> gives. For an error of the decoder the text is the message up to the colon
  that introduces the position.
\<close>

datatype py_exn = Exn exn_class string

fun exn_cls :: "py_exn \<Rightarrow> exn_class" where
  "exn_cls (Exn c m) = c"

fun exn_str :: "py_exn \<Rightarrow> string" where
  "exn_str (Exn c m) = m"

text \<open>
  A Python float is represented by the rational value of its decimal literal (Python rounds
  that value to the nearest double), or is one of the three special values.
\<close>

datatype pyfloat = Finite rat | NaN | PosInf | NegInf

datatype json =
    JNull
  | JBool bool
  | JInt int
  | JFloat pyfloat
  | JString string
  | JArray "json list"
  | JObject "(string \<times> json) list"

text \<open>A \<open>dict\<close> keeps its keys in insertion order; storing under a present key replaces the value.\<close>

fun dict_set :: "string \<Rightarrow> json \<Rightarrow> (string \<times> json) list \<Rightarrow> (string \<times> json) list" where
  "dict_set k v [] = [(k, v)]"
| "dict_set k v ((k', v') # kvs) = (if k = k' then (k, v) # kvs else (k', v') # dict_set k v kvs)"

definition dict_of_pairs :: "(string \<times> json) list \<Rightarrow> (string \<times> json) list" where
  "dict_of_pairs ps = foldl (\<lambda>d (k, v). dict_set k v d) [] ps"

text \<open>\<open>d.get(k)\<close> on a JSON value that is a \<open>dict\<close>.\<close>

fun dict_get :: "string \<Rightarrow> json \<Rightarrow> json option" where
  "dict_get k (JObject kvs) = map_of kvs k"
| "dict_get k _ = None"

text \<open>Truth value of a JSON value in a condition (\<open>if v\<close>, \<open>not v\<close>).\<close>

fun py_truthy :: "json \<Rightarrow> bool" where
  "py_truthy JNull = False"
| "py_truthy (JBool b) = b"
| "py_truthy (JInt i) = (i \<noteq> 0)"
| "py_truthy (JFloat (Finite r)) = (r \<noteq> 0)"
| "py_truthy (JFloat _) = True"
| "py_truthy (JString s) = (s \<noteq> [])"
| "py_truthy (JArray xs) = (xs \<noteq> [])"
| "py_truthy (JObject kvs) = (kvs \<noteq> [])"

text \<open>The name of a value's type, as the messages of the interpreter print it.\<close>

fun py_type_name :: "json \<Rightarrow> string" where
  "py_type_name JNull = ''NoneType''"
| "py_type_name (JBool b) = ''bool''"
| "py_type_name (JInt i) = ''int''"
| "py_type_name (JFloat f) = ''float''"
| "py_type_name (JString s) = ''str''"
| "py_type_name (JArray xs) = ''list''"
| "py_type_name (JObject kvs) = ''dict''"

definition quoted :: "string \<Rightarrow> string" where
  "quoted s = [CHR 0x27] @ s @ [CHR 0x27]"

fun is_substring :: "string \<Rightarrow> string \<Rightarrow> bool" where
  "is_substring k [] = (k = [])"
| "is_substring k (c # cs) = (take (length k) (c # cs) = k \<or> is_substring k cs)"

text \<open>\<open>key in v\<close> for a string key: membership in a dict's keys, in a list, substring of a
  string; any other value is not iterable.\<close>

fun py_contains :: "string \<Rightarrow> json \<Rightarrow> py_exn + bool" where
  "py_contains k (JObject kvs) = Inr (k \<in> fst ` set kvs)"
| "py_contains k (JArray xs) = Inr (JString k \<in> set xs)"
| "py_contains k (JString s) = Inr (is_substring k s)"
| "py_contains k v =
     Inl (Exn TypeError (''argument of type '' @ quoted (py_type_name v) @ '' is not iterable''))"

subsection \<open>The regular expressions of agent.py\<close>

definition is_digit :: "char \<Rightarrow> bool" where
  "is_digit c \<longleftrightarrow> c \<in> set ''0123456789''"

definition digit_val :: "char \<Rightarrow> nat" where
  "digit_val c = of_char c - 48"

definition int_of_digits :: "string \<Rightarrow> int" where
  "int_of_digits ds = int (foldl (\<lambda>n c. 10 * n + digit_val c) 0 ds)"

text \<open>
  \<open>re.search(r'\{.*\}', s, re.DOTALL)\<close>: the search starts at the leftmost \<open>{\<close>, and the greedy
  \<open>.*\<close> (which with \<open>DOTALL\<close> crosses line ends) runs to the last \<open>}\<close> of the text. There is
  a match exactly when some \<open>}\<close> follows the first \<open>{\<close>.
\<close>

definition json_match :: "string \<Rightarrow> string option" where
  "json_match s =
     (case dropWhile (\<lambda>c. c \<noteq> CHR ''{'') s of
        [] \<Rightarrow> None
      | b # rest \<Rightarrow>
          (if CHR ''}'' \<in> set rest
           then Some (b # rev (dropWhile (\<lambda>c. c \<noteq> CHR ''}'') (rev rest)))
           else None))"

text \<open>\<open>re.search(r'(\d+)', s)\<close>: group 1 is the first maximal run of digits.\<close>

definition digits_match :: "string \<Rightarrow> string option" where
  "digits_match s =
     (case takeWhile is_digit (dropWhile (\<lambda>c. \<not> is_digit c) s) of
        [] \<Rightarrow> None
      | d # ds \<Rightarrow> Some (d # ds))"

text \<open>
  \<open>re.search(r'(\d+)%', s)\<close>: a match starts at the first digit of the first maximal run of
  digits that a \<open>%\<close> follows, and group 1 is that run. The scan carries the run read so far.
\<close>

fun percent_scan :: "string \<Rightarrow> string \<Rightarrow> string option" where
  "percent_scan run [] = None"
| "percent_scan run (c # cs) =
     (if is_digit c then percent_scan (run @ [c]) cs
      else if c = CHR ''%'' \<and> run \<noteq> [] then Some run
      else percent_scan [] cs)"

definition percent_match :: "string \<Rightarrow> string option" where
  "percent_match s = percent_scan [] s"

definition ascii_lower :: "char \<Rightarrow> char" where
  "ascii_lower c =
     (if c \<in> set ''ABCDEFGHIJKLMNOPQRSTUVWXYZ'' then char_of (of_char c + (32::nat)) else c)"

text \<open>The text after the leftmost case-insensitive occurrence of a lower-case ASCII word.\<close>

fun after_word_ci :: "string \<Rightarrow> string \<Rightarrow> string option" where
  "after_word_ci w [] = (if w = [] then Some [] else None)"
| "after_word_ci w (c # cs) =
     (if map ascii_lower (take (length w) (c # cs)) = w then Some (drop (length w) (c # cs))
      else after_word_ci w cs)"

text \<open>
  \<open>re.search(r'probability[^\d]*(\d+)', s, re.IGNORECASE)\<close>: after the leftmost occurrence of
  the word, \<open>[^\d]*\<close> skips to the next digit, and group 1 is the maximal run from there.
\<close>

definition probability_match :: "string \<Rightarrow> string option" where
  "probability_match s =
     (case after_word_ci ''probability'' s of
        None \<Rightarrow> None
      | Some rest \<Rightarrow> digits_match rest)"

subsection \<open>A decoder for JSON text\<close>

text \<open>
  \<open>json.loads\<close> belongs to the Python library, not to this repository, and the functions of
  agent.py are modelled with the decoder as a parameter \<open>loads\<close>. The decoder below follows
  \<open>json.decoder\<close> and \<open>json.scanner\<close> (objects, arrays, strings with their escapes, numbers, the
  literals, white space, the error cases); it instantiates the parameter at concrete replies.
  An escape \<open>\uXXXX\<close> is decoded when its code point is below 256, the range of the text
  model. The recursion carries a bound that \<open>json_loads\<close> starts at twice the length of the
  text plus two, which no text exhausts (\<open>json_loads_within_bound\<close> below); the interpreter's
  own recursion limit is not modelled.
\<close>

definition decode_error :: "string \<Rightarrow> py_exn" where
  "decode_error m = Exn JSONDecodeError m"

definition is_ws :: "char \<Rightarrow> bool" where
  "is_ws c \<longleftrightarrow> c \<in> set [CHR '' '', CHR 0x09, CHR 0x0A, CHR 0x0D]"

definition skip_ws :: "string \<Rightarrow> string" where
  "skip_ws s = dropWhile is_ws s"

definition backslash :: "char \<Rightarrow> char option" where
  "backslash e =
     (if e = CHR 0x22 then Some (CHR 0x22)
      else if e = CHR 0x5C then Some (CHR 0x5C)
      else if e = CHR ''/'' then Some (CHR ''/'')
      else if e = CHR ''b'' then Some (CHR 0x08)
      else if e = CHR ''f'' then Some (CHR 0x0C)
      else if e = CHR ''n'' then Some (CHR 0x0A)
      else if e = CHR ''r'' then Some (CHR 0x0D)
      else if e = CHR ''t'' then Some (CHR 0x09)
      else None)"

definition hex_val :: "char \<Rightarrow> nat option" where
  "hex_val c =
     (if is_digit c then Some (of_char c - 48)
      else if c \<in> set ''abcdef'' then Some (of_char c - 87)
      else if c \<in> set ''ABCDEF'' then Some (of_char c - 55)
      else None)"

definition decode_uXXXX :: "char \<Rightarrow> char \<Rightarrow> char \<Rightarrow> char \<Rightarrow> nat option" where
  "decode_uXXXX a b c d =
     (case (hex_val a, hex_val b, hex_val c, hex_val d) of
        (Some w, Some x, Some y, Some z) \<Rightarrow> Some (((w * 16 + x) * 16 + y) * 16 + z)
      | _ \<Rightarrow> None)"

text \<open>\<open>scanstring\<close>, strict: from the character after the opening quote to the closing one.\<close>

fun scanstring :: "string \<Rightarrow> py_exn + (string \<times> string)" where
  "scanstring [] = Inl (decode_error ''Unterminated string starting at'')"
| "scanstring (c # cs) =
     (if c = CHR 0x22 then Inr ([], cs)
      else if c = CHR 0x5C then
        (case cs of
           [] \<Rightarrow> Inl (decode_error ''Unterminated string starting at'')
         | e # es \<Rightarrow>
             (if e = CHR ''u'' then
                (case es of
                   h1 # h2 # h3 # h4 # r \<Rightarrow>
                     (case decode_uXXXX h1 h2 h3 h4 of
                        None \<Rightarrow> Inl (decode_error (''Invalid '' @ [CHR 0x5C] @ ''uXXXX escape''))
                      | Some n \<Rightarrow>
                          (if n < 256 then
                             (case scanstring r of
                                Inl x \<Rightarrow> Inl x
                              | Inr (str, r') \<Rightarrow> Inr (char_of n # str, r'))
                           else Inl (Exn OtherException ''code point outside the text model'')))
                 | _ \<Rightarrow> Inl (decode_error (''Invalid '' @ [CHR 0x5C] @ ''uXXXX escape'')))
              else
                (case backslash e of
                   None \<Rightarrow> Inl (decode_error (''Invalid '' @ [CHR 0x5C] @ ''escape''))
                 | Some ch \<Rightarrow>
                     (case scanstring es of
                        Inl x \<Rightarrow> Inl x
                      | Inr (str, r') \<Rightarrow> Inr (ch # str, r')))))
      else if (of_char c :: nat) < 32 then Inl (decode_error ''Invalid control character at'')
      else
        (case scanstring cs of
           Inl x \<Rightarrow> Inl x
         | Inr (str, r') \<Rightarrow> Inr (c # str, r')))"

text \<open>
  \<open>NUMBER_RE\<close>, \<open>(-?(?:0|[1-9]\d*))(\.\d+)?([eE][-+]?\d+)?\<close>, matched at the head of the text:
  the three groups and the rest.
\<close>

definition number_int_part :: "string \<Rightarrow> (string \<times> string) option" where
  "number_int_part s =
     (case s of
        [] \<Rightarrow> None
      | d # r \<Rightarrow>
          (if d = CHR ''0'' then Some ([d], r)
           else if is_digit d then Some (takeWhile is_digit s, dropWhile is_digit s)
           else None))"

definition number_frac_part :: "string \<Rightarrow> string \<times> string" where
  "number_frac_part s =
     (case s of
        p # d # r \<Rightarrow>
          (if p = CHR ''.'' \<and> is_digit d
           then (takeWhile is_digit (d # r), dropWhile is_digit (d # r))
           else ([], s))
      | _ \<Rightarrow> ([], s))"

text \<open>The exponent group: whether there is one, its sign, its digits, and the rest.\<close>

definition number_exp_part :: "string \<Rightarrow> bool \<times> bool \<times> string \<times> string" where
  "number_exp_part s =
     (case s of
        e # r \<Rightarrow>
          (if e = CHR ''e'' \<or> e = CHR ''E'' then
             (case r of
                g # r' \<Rightarrow>
                  (if g = CHR ''-'' \<or> g = CHR ''+'' then
                     (case r' of
                        d # _ \<Rightarrow>
                          (if is_digit d
                           then (True, g = CHR ''-'', takeWhile is_digit r', dropWhile is_digit r')
                           else (False, False, [], s))
                      | [] \<Rightarrow> (False, False, [], s))
                   else if is_digit g
                   then (True, False, takeWhile is_digit r, dropWhile is_digit r)
                   else (False, False, [], s))
              | [] \<Rightarrow> (False, False, [], s))
           else (False, False, [], s))
      | [] \<Rightarrow> (False, False, [], s))"

definition float_value :: "bool \<Rightarrow> string \<Rightarrow> string \<Rightarrow> bool \<Rightarrow> string \<Rightarrow> rat" where
  "float_value neg ip fp eneg ep =
     (let m = of_int (int_of_digits (ip @ fp)) / 10 ^ length fp;
          e = nat (int_of_digits ep);
          v = (if eneg then m / 10 ^ e else m * 10 ^ e)
      in if neg then - v else v)"

definition match_number :: "string \<Rightarrow> (json \<times> string) option" where
  "match_number s =
     (let (neg, s1) = (case s of [] \<Rightarrow> (False, s)
                       | c # r \<Rightarrow> if c = CHR ''-'' then (True, r) else (False, s))
      in case number_int_part s1 of
           None \<Rightarrow> None
         | Some (ip, s2) \<Rightarrow>
             (let (fp, s3) = number_frac_part s2;
                  (has_exp, eneg, ep, s4) = number_exp_part s3
              in if fp = [] \<and> \<not> has_exp
                 then Some (JInt (if neg then - int_of_digits ip else int_of_digits ip), s4)
                 else Some (JFloat (Finite (float_value neg ip fp eneg ep)), s4)))"

text \<open>
  \<open>scan_once\<close> with \<open>JSONObject\<close> and \<open>JSONArray\<close>. \<open>object_pairs\<close> is the loop of
  \<open>JSONObject\<close>, entered after the opening quote of a key; \<open>array_items\<close> is the loop of
  \<open>JSONArray\<close>, entered at a value. The first argument bounds the recursion.
\<close>

fun scan_once :: "nat \<Rightarrow> string \<Rightarrow> py_exn + (json \<times> string)"
  and object_pairs :: "nat \<Rightarrow> (string \<times> json) list \<Rightarrow> string \<Rightarrow> py_exn + (json \<times> string)"
  and array_items :: "nat \<Rightarrow> json list \<Rightarrow> string \<Rightarrow> py_exn + (json \<times> string)"
where
  "scan_once 0 s = Inl (Exn RecursionError ''maximum recursion depth exceeded'')"
| "scan_once (Suc n) s =
     (case s of
        [] \<Rightarrow> Inl (decode_error ''Expecting value'')
      | c # cs \<Rightarrow>
          (if c = CHR 0x22 then
             (case scanstring cs of
                Inl x \<Rightarrow> Inl x
              | Inr (str, r) \<Rightarrow> Inr (JString str, r))
           else if c = CHR ''{'' then
             (case skip_ws cs of
                [] \<Rightarrow> Inl (decode_error ''Expecting property name enclosed in double quotes'')
              | d # r \<Rightarrow>
                  (if d = CHR ''}'' then Inr (JObject [], r)
                   else if d = CHR 0x22 then object_pairs n [] r
                   else Inl (decode_error ''Expecting property name enclosed in double quotes'')))
           else if c = CHR ''['' then
             (case skip_ws cs of
                [] \<Rightarrow> Inl (decode_error ''Expecting value'')
              | d # r \<Rightarrow> (if d = CHR '']'' then Inr (JArray [], r) else array_items n [] (d # r)))
           else if take 4 s = ''null'' then Inr (JNull, drop 4 s)
           else if take 4 s = ''true'' then Inr (JBool True, drop 4 s)
           else if take 5 s = ''false'' then Inr (JBool False, drop 5 s)
           else
             (case match_number s of
                Some res \<Rightarrow> Inr res
              | None \<Rightarrow>
                  (if take 3 s = ''NaN'' then Inr (JFloat NaN, drop 3 s)
                   else if take 8 s = ''Infinity'' then Inr (JFloat PosInf, drop 8 s)
                   else if take 9 s = ''-Infinity'' then Inr (JFloat NegInf, drop 9 s)
                   else Inl (decode_error ''Expecting value'')))))"
| "object_pairs 0 pairs s = Inl (Exn RecursionError ''maximum recursion depth exceeded'')"
| "object_pairs (Suc n) pairs s =
     (case scanstring s of
        Inl x \<Rightarrow> Inl x
      | Inr (key, r) \<Rightarrow>
          (case skip_ws r of
             [] \<Rightarrow> Inl (decode_error ''Expecting ':' delimiter'')
           | c # r1 \<Rightarrow>
               (if c \<noteq> CHR '':'' then Inl (decode_error ''Expecting ':' delimiter'')
                else
                  (case scan_once n (skip_ws r1) of
                     Inl x \<Rightarrow> Inl x
                   | Inr (v, r2) \<Rightarrow>
                       (case skip_ws r2 of
                          [] \<Rightarrow> Inl (decode_error ''Expecting ',' delimiter'')
                        | d # r3 \<Rightarrow>
                            (if d = CHR ''}'' then
                               Inr (JObject (dict_of_pairs (pairs @ [(key, v)])), r3)
                             else if d = CHR '','' then
                               (case skip_ws r3 of
                                  [] \<Rightarrow> Inl (decode_error
                                    ''Expecting property name enclosed in double quotes'')
                                | q # r4 \<Rightarrow>
                                    (if q = CHR 0x22 then object_pairs n (pairs @ [(key, v)]) r4
                                     else Inl (decode_error
                                       ''Expecting property name enclosed in double quotes'')))
                             else Inl (decode_error ''Expecting ',' delimiter'')))))))"
| "array_items 0 items s = Inl (Exn RecursionError ''maximum recursion depth exceeded'')"
| "array_items (Suc n) items s =
     (case scan_once n s of
        Inl x \<Rightarrow> Inl x
      | Inr (v, r) \<Rightarrow>
          (case skip_ws r of
             [] \<Rightarrow> Inl (decode_error ''Expecting ',' delimiter'')
           | d # r1 \<Rightarrow>
               (if d = CHR '']'' then Inr (JArray (items @ [v]), r1)
                else if d = CHR '','' then array_items n (items @ [v]) (skip_ws r1)
                else Inl (decode_error ''Expecting ',' delimiter''))))"

text \<open>\<open>json.loads\<close>: white space, one value, white space, and nothing more.\<close>

definition json_loads :: "string \<Rightarrow> py_exn + json" where
  "json_loads s =
     (case scan_once (2 * length s + 2) (skip_ws s) of
        Inl x \<Rightarrow> Inl x
      | Inr (v, r) \<Rightarrow> (if skip_ws r = [] then Inr v else Inl (decode_error ''Extra data'')))"

text \<open>A result that is not the exhaustion of the bound and, when a value, has consumed text.\<close>

definition within_bound :: "py_exn + (json \<times> string) \<Rightarrow> string \<Rightarrow> bool" where
  "within_bound res s =
     (case res of
        Inl x \<Rightarrow> exn_cls x \<noteq> RecursionError
      | Inr (v, r) \<Rightarrow> length r < length s)"

section \<open>agent.py\<close>

subsection \<open>The remote endpoints and the environment\<close>

text \<open>
  A call of \<open>client.chat.completions.create\<close> is determined by the model addressed and by
  the values the source splices into its fixed prompt texts: the query and the token budget
  of a search, the image URL and the person's name of a vision call, the search data and the
  image analysis of a scoring call (\<open>None\<close> where the prompt says \<open>No image provided\<close>).
  The endpoint answers with a text, as the source's annotations declare, or the call (or
  reading \<open>choices[0].message.content\<close> off its response) raises.
  The answer may depend on all the calls made before; every call is appended to the list of
  calls made so far, which each function takes and returns.
\<close>

datatype request =
    SearchReq string nat
  | VisionReq string string
  | ScoreReq string "json option"

datatype api_outcome = Raises py_exn | Reply string

type_synonym client = "request list \<Rightarrow> request \<Rightarrow> api_outcome"

type_synonym decoder = "string \<Rightarrow> py_exn + json"

text \<open>The file system: the base64 text of a file's bytes, or what \<open>open\<close> or \<open>read\<close> raises.\<close>

type_synonym files = "string \<Rightarrow> py_exn + string"

definition create :: "client \<Rightarrow> request \<Rightarrow> request list \<Rightarrow> (py_exn + string) \<times> request list" where
  "create api req calls = ((case api calls req of Raises e \<Rightarrow> Inl e | Reply t \<Rightarrow> Inr t), calls @ [req])"

text \<open>An optional string argument in a condition: \<open>None\<close> and the empty string are false.\<close>

definition supplied :: "string option \<Rightarrow> bool" where
  "supplied a = (case a of None \<Rightarrow> False | Some s \<Rightarrow> s \<noteq> [])"

subsection \<open>web_search\<close>

definition web_search_body :: "client \<Rightarrow> string \<Rightarrow> nat \<Rightarrow> request list \<Rightarrow> (py_exn + string) \<times> request list" where
  "web_search_body api query max_tokens calls = create api (SearchReq query max_tokens) calls"

definition web_search :: "client \<Rightarrow> string \<Rightarrow> nat \<Rightarrow> request list \<Rightarrow> string \<times> request list" where
  "web_search api query max_tokens calls =
     (case web_search_body api query max_tokens calls of
        (Inr content, calls') \<Rightarrow> (content, calls')
      | (Inl e, calls') \<Rightarrow> (''Error during web search: '' @ exn_str e, calls'))"

subsection \<open>analyze_ethnic_image\<close>

definition encode_image :: "files \<Rightarrow> string \<Rightarrow> py_exn + string" where
  "encode_image fs image_path = fs image_path"

text \<open>The two dictionaries the fallbacks of lines 120--124 and 126--130 build.\<close>

definition image_fallback :: "int \<Rightarrow> string \<Rightarrow> string \<Rightarrow> json" where
  "image_fallback score label result =
     JObject [(''punteggio_immagine'', JInt score),
              (''indicatori_visivi'', JArray [JString label]),
              (''spiegazione'', JString (take 200 result))]"

text \<open>Lines 111--130, the inner \<open>try\<close> on the reply text and its handler.\<close>

definition image_reply_try :: "decoder \<Rightarrow> string \<Rightarrow> py_exn + json" where
  "image_reply_try loads result =
     (case json_match result of
        Some m \<Rightarrow> loads m
      | None \<Rightarrow>
          (let score = (case digits_match result of Some ds \<Rightarrow> int_of_digits ds | None \<Rightarrow> 50)
           in Inr (image_fallback score ''unstructured analysis'' result)))"

definition image_reply :: "decoder \<Rightarrow> string \<Rightarrow> py_exn + json" where
  "image_reply loads result =
     (case image_reply_try loads result of
        Inr v \<Rightarrow> Inr v
      | Inl e \<Rightarrow>
          (if exn_cls e = JSONDecodeError \<or> exn_cls e = ValueError
           then Inr (image_fallback 50 ''analysis error'' result)
           else Inl e))"

text \<open>Lines 92--130: the call of the vision endpoint and the reading of its reply.\<close>

definition vision_call ::
  "client \<Rightarrow> decoder \<Rightarrow> string \<Rightarrow> string \<Rightarrow> request list \<Rightarrow> (py_exn + json) \<times> request list" where
  "vision_call api loads url person_name calls =
     (case create api (VisionReq url person_name) calls of
        (Inl e, calls') \<Rightarrow> (Inl e, calls')
      | (Inr result, calls') \<Rightarrow> (image_reply loads result, calls'))"

text \<open>
  Lines 64--90, the choice of the image block: the URL attached to the prompt, the exception
  reading the file raised, or \<open>None\<close> where the source returns its error object at once.
\<close>

definition image_source ::
  "files \<Rightarrow> string option \<Rightarrow> string option \<Rightarrow> string option \<Rightarrow> (py_exn + string) option" where
  "image_source fs image_path image_url image_base64 =
     (if supplied image_path then
        (case encode_image fs (the image_path) of
           Inl e \<Rightarrow> Some (Inl e)
         | Inr base64_image \<Rightarrow> Some (Inr (''data:image/jpeg;base64,'' @ base64_image)))
      else if supplied image_base64 then
        Some (Inr (''data:image/jpeg;base64,'' @ the image_base64))
      else if supplied image_url then
        Some (Inr (the image_url))
      else None)"

text \<open>Lines 52--130, the body of the outer \<open>try\<close>.\<close>

definition analyze_ethnic_image_body ::
  "files \<Rightarrow> client \<Rightarrow> decoder \<Rightarrow> string option \<Rightarrow> string option \<Rightarrow> string option \<Rightarrow> string \<Rightarrow>
   request list \<Rightarrow> (py_exn + json) \<times> request list" where
  "analyze_ethnic_image_body fs api loads image_path image_url image_base64 person_name calls =
     (case image_source fs image_path image_url image_base64 of
        None \<Rightarrow> (Inr (JObject [(''errore'', JString ''No image provided'')]), calls)
      | Some (Inl e) \<Rightarrow> (Inl e, calls)
      | Some (Inr url) \<Rightarrow> vision_call api loads url person_name calls)"

definition analyze_ethnic_image ::
  "files \<Rightarrow> client \<Rightarrow> decoder \<Rightarrow> string option \<Rightarrow> string option \<Rightarrow> string option \<Rightarrow> string \<Rightarrow>
   request list \<Rightarrow> json \<times> request list" where
  "analyze_ethnic_image fs api loads image_path image_url image_base64 person_name calls =
     (case analyze_ethnic_image_body fs api loads image_path image_url image_base64
             person_name calls of
        (Inr v, calls') \<Rightarrow> (v, calls')
      | (Inl e, calls') \<Rightarrow>
          (JObject [(''errore'', JString (''Error in image analysis: '' @ exn_str e))], calls'))"

subsection \<open>calculate_jewish_probability\<close>

text \<open>Lines 194--199 (and again 210--215 and 226--231): the probability read from the reply.\<close>

definition recover_probability :: "string \<Rightarrow> int" where
  "recover_probability result =
     (case percent_match result of
        Some ds \<Rightarrow> int_of_digits ds
      | None \<Rightarrow>
          (case probability_match result of
             Some ds \<Rightarrow> int_of_digits ds
           | None \<Rightarrow> 50))"

text \<open>The dictionary of lines 201--207, 217--223 and 233--239.\<close>

definition score_fallback :: "int \<Rightarrow> string \<Rightarrow> rat \<Rightarrow> string \<Rightarrow> json" where
  "score_fallback probability label confidenza result =
     JObject [(''probabilita_percentuale'', JInt probability),
              (''categoria'', JString (if probability > 40 then ''moderata'' else ''bassa'')),
              (''indicatori_principali'', JArray [JString label]),
              (''spiegazione'', JString (take 200 result)),
              (''confidenza'', JFloat (Finite confidenza))]"

text \<open>Lines 184--239, the inner \<open>try\<close> on the reply text and its handler.\<close>

definition score_reply_try :: "decoder \<Rightarrow> string \<Rightarrow> py_exn + json" where
  "score_reply_try loads result =
     (case json_match result of
        Some m \<Rightarrow>
          (case loads m of
             Inl e \<Rightarrow> Inl e
           | Inr parsed_json \<Rightarrow>
               (case py_contains ''probabilita_percentuale'' parsed_json of
                  Inl e \<Rightarrow> Inl e
                | Inr has_key \<Rightarrow>
                    (if has_key then Inr parsed_json
                     else Inr (score_fallback (recover_probability result)
                                 ''fallback analysis'' (5 / 10) result))))
      | None \<Rightarrow>
          Inr (score_fallback (recover_probability result) ''unstructured analysis'' (5 / 10)
                 result))"

definition score_reply :: "decoder \<Rightarrow> string \<Rightarrow> py_exn + json" where
  "score_reply loads result =
     (case score_reply_try loads result of
        Inr v \<Rightarrow> Inr v
      | Inl e \<Rightarrow>
          (if exn_cls e = JSONDecodeError \<or> exn_cls e = ValueError \<or> exn_cls e = AttributeError
           then Inr (score_fallback (recover_probability result) ''analysis error fallback''
                       (3 / 10) result)
           else Inl e))"

text \<open>The image block of the prompt, line 145: the analysis when it is true in a condition.\<close>

definition image_block :: "json option \<Rightarrow> json option" where
  "image_block image_analysis =
     (case image_analysis of
        None \<Rightarrow> None
      | Some v \<Rightarrow> (if py_truthy v then Some v else None))"

definition calculate_jewish_probability_body ::
  "client \<Rightarrow> decoder \<Rightarrow> string \<Rightarrow> json option \<Rightarrow> request list \<Rightarrow> (py_exn + json) \<times> request list" where
  "calculate_jewish_probability_body api loads search_data image_analysis calls =
     (case create api (ScoreReq search_data (image_block image_analysis)) calls of
        (Inl e, calls') \<Rightarrow> (Inl e, calls')
      | (Inr result, calls') \<Rightarrow> (score_reply loads result, calls'))"

definition calculate_jewish_probability ::
  "client \<Rightarrow> decoder \<Rightarrow> string \<Rightarrow> json option \<Rightarrow> request list \<Rightarrow> json \<times> request list" where
  "calculate_jewish_probability api loads search_data image_analysis calls =
     (case calculate_jewish_probability_body api loads search_data image_analysis calls of
        (Inr v, calls') \<Rightarrow> (v, calls')
      | (Inl e, calls') \<Rightarrow>
          (JObject [(''errore'', JString (''Error calculating score: '' @ exn_str e))], calls'))"

subsection \<open>analyze_person_jewish_identity\<close>

record analysis_result =
  persona :: string
  timestamp :: string
  dati_ricerca :: string
  analisi_immagine :: "json option"
  risultato_finale :: json

text \<open>\<open>str.strip()\<close>: the white space of \<open>str.isspace\<close> among the code points below 256.\<close>

definition is_space :: "char \<Rightarrow> bool" where
  "is_space c \<longleftrightarrow>
     c \<in> set [CHR 0x09, CHR 0x0A, CHR 0x0B, CHR 0x0C, CHR 0x0D, CHR 0x1C, CHR 0x1D, CHR 0x1E,
               CHR 0x1F, CHR 0x20, CHR 0x85, CHR 0xA0]"

definition py_strip :: "string \<Rightarrow> string" where
  "py_strip s = rev (dropWhile is_space (rev (dropWhile is_space s)))"

fun py_join :: "string \<Rightarrow> string list \<Rightarrow> string" where
  "py_join sep [] = []"
| "py_join sep [x] = x"
| "py_join sep (x # y # ys) = x @ sep @ py_join sep (y # ys)"

text \<open>The loop of lines 258--260, with the default token budget of \<open>web_search\<close>.\<close>

fun search_all :: "client \<Rightarrow> string list \<Rightarrow> request list \<Rightarrow> string list \<times> request list" where
  "search_all api [] calls = ([], calls)"
| "search_all api (query # queries) calls =
     (case web_search api query 1500 calls of
        (data, calls1) \<Rightarrow>
          (case search_all api queries calls1 of
             (rest, calls2) \<Rightarrow> (data # rest, calls2)))"

definition search_queries :: "string \<Rightarrow> string list" where
  "search_queries full_name =
     [full_name @ '' ethnic origin Jewish heritage'',
      full_name @ '' family background ancestry'',
      full_name @ '' religious affiliation cultural background'']"

text \<open>Lines 251--262: the three searches, in order, and their texts joined by a blank line.\<close>

definition gather_search_data :: "client \<Rightarrow> string \<Rightarrow> request list \<Rightarrow> string \<times> request list" where
  "gather_search_data api full_name calls =
     (case search_all api (search_queries full_name) calls of
        (all_search_data, calls1) \<Rightarrow> (py_join [CHR 0x0A, CHR 0x0A] all_search_data, calls1))"

definition analyze_person_jewish_identity ::
  "files \<Rightarrow> client \<Rightarrow> decoder \<Rightarrow> string \<Rightarrow> string \<Rightarrow> string option \<Rightarrow> string option \<Rightarrow> string option \<Rightarrow>
   request list \<Rightarrow> analysis_result \<times> request list" where
  "analyze_person_jewish_identity fs api loads nome cognome image_path image_url image_base64 calls =
     (let full_name = py_strip (nome @ '' '' @ cognome);
          (combined_search_data, calls1) = gather_search_data api full_name calls;
          (image_analysis, calls2) =
            (if supplied image_path \<or> supplied image_url \<or> supplied image_base64
             then (case analyze_ethnic_image fs api loads image_path image_url image_base64
                          full_name calls1 of
                     (v, c) \<Rightarrow> (Some v, c))
             else (None, calls1));
          (final_analysis, calls3) =
            calculate_jewish_probability api loads combined_search_data image_analysis calls2
      in (\<lparr>persona = full_name,
           timestamp = ''2025-09-22'',
           dati_ricerca =
             (if length combined_search_data > 500
              then take 500 combined_search_data @ ''...''
              else combined_search_data),
           analisi_immagine = image_analysis,
           risultato_finale = final_analysis\<rparr>,
          calls3))"

section \<open>analyze.py\<close>

datatype http_body = ErrorBody string | ResultBody analysis_result

record http_response =
  status :: nat
  body :: http_body

text \<open>\<open>send_error\<close>: the status and the object \<open>{'error': message}\<close>.\<close>

definition send_error :: "nat \<Rightarrow> string \<Rightarrow> http_response" where
  "send_error code message = \<lparr>status = code, body = ErrorBody message\<rparr>"

text \<open>\<open>data.get(key, '')\<close>: only a dict has the method.\<close>

definition data_get :: "json \<Rightarrow> string \<Rightarrow> json \<Rightarrow> py_exn + json" where
  "data_get data key dflt =
     (case data of
        JObject kvs \<Rightarrow> Inr (case map_of kvs key of Some v \<Rightarrow> v | None \<Rightarrow> dflt)
      | _ \<Rightarrow>
          Inl (Exn AttributeError
                 (quoted (py_type_name data) @ '' object has no attribute '' @ quoted ''get'')))"

text \<open>A value spliced into an f-string: a string as it is, any other value through \<open>str\<close>.\<close>

definition format_value :: "(json \<Rightarrow> string) \<Rightarrow> json \<Rightarrow> string" where
  "format_value str_of v = (case v of JString s \<Rightarrow> s | _ \<Rightarrow> str_of v)"

text \<open>
  Lines 24--58, the body of the \<open>try\<close> of \<open>do_POST\<close>. \<open>post_text\<close> is the outcome of lines
  25--27 before \<open>json.loads\<close>: the decoded body, or what reading the header and the body
  raised. \<open>getenv\<close> is the value of \<open>OPENAI_API_KEY\<close>. \<open>str_of\<close> stands for \<open>str\<close> on the
  values that are not strings, where it never gives the empty text. Constructing the client
  from a key that is present is taken not to raise.
\<close>

definition do_POST_body ::
  "files \<Rightarrow> client \<Rightarrow> decoder \<Rightarrow> (json \<Rightarrow> string) \<Rightarrow> string option \<Rightarrow> py_exn + string \<Rightarrow> request list \<Rightarrow>
   (py_exn + http_response) \<times> request list" where
  "do_POST_body fs api loads str_of getenv post_text calls =
     (case post_text of
        Inl e \<Rightarrow> (Inl e, calls)
      | Inr text \<Rightarrow>
     (case loads text of
        Inl e \<Rightarrow> (Inl e, calls)
      | Inr data \<Rightarrow>
     (case data_get data ''firstName'' (JString []) of
        Inl e \<Rightarrow> (Inl e, calls)
      | Inr firstName \<Rightarrow>
     (case data_get data ''lastName'' (JString []) of
        Inl e \<Rightarrow> (Inl e, calls)
      | Inr lastName \<Rightarrow>
     (case data_get data ''imageBase64'' JNull of
        Inl e \<Rightarrow> (Inl e, calls)
      | Inr imageBase64 \<Rightarrow>
          (if \<not> py_truthy firstName \<or> \<not> py_truthy lastName then
             (Inr (send_error 400 ''First name and last name are required''), calls)
           else if \<not> supplied getenv then
             (Inr (send_error 500 ''OpenAI API key not configured''), calls)
           else
             (let image_param =
                    (if py_truthy imageBase64 then Some (format_value str_of imageBase64)
                     else None)
              in case analyze_person_jewish_identity fs api loads
                        (format_value str_of firstName) (format_value str_of lastName)
                        None None image_param calls of
                   (result, calls') \<Rightarrow> (Inr \<lparr>status = 200, body = ResultBody result\<rparr>, calls'))))))))"

definition do_POST ::
  "files \<Rightarrow> client \<Rightarrow> decoder \<Rightarrow> (json \<Rightarrow> string) \<Rightarrow> string option \<Rightarrow> py_exn + string \<Rightarrow> request list \<Rightarrow>
   http_response \<times> request list" where
  "do_POST fs api loads str_of getenv post_text calls =
     (case do_POST_body fs api loads str_of getenv post_text calls of
        (Inr response, calls') \<Rightarrow> (response, calls')
      | (Inl e, calls') \<Rightarrow> (send_error 500 (''Analysis failed: '' @ exn_str e), calls'))"

section \<open>Example environments\<close>

text \<open>Endpoints, a file system and a formatter for the concrete runs below.\<close>

definition stub_api :: "string \<Rightarrow> string \<Rightarrow> string \<Rightarrow> client" where
  "stub_api search_text vision_text score_text calls req =
     (case req of
        SearchReq q n \<Rightarrow> Reply search_text
      | VisionReq url person \<Rightarrow> Reply vision_text
      | ScoreReq search_data img \<Rightarrow> Reply score_text)"

definition failing_api :: "string \<Rightarrow> client" where
  "failing_api message calls req = Raises (Exn OtherException message)"

definition one_file :: "string \<Rightarrow> files" where
  "one_file base64_text path = Inr base64_text"


section \<open>Properties\<close>

subsection \<open>The regular expressions\<close>


lemma json_match_None_iff:
  "json_match s = None \<longleftrightarrow> \<not> (\<exists>pre mid post. s = pre @ CHR ''{'' # mid @ CHR ''}'' # post)"
proof
  assume n: "json_match s = None"
  show "\<not> (\<exists>pre mid post. s = pre @ CHR ''{'' # mid @ CHR ''}'' # post)"
  proof
    assume "\<exists>pre mid post. s = pre @ CHR ''{'' # mid @ CHR ''}'' # post"
    then obtain pre mid post where s: "s = pre @ CHR ''{'' # mid @ CHR ''}'' # post" by blast
    show False
    proof (cases "dropWhile (\<lambda>c. c \<noteq> CHR ''{'') s")
      case Nil
      then show False using s by auto
    next
      case (Cons b rest)
      then have "s = takeWhile (\<lambda>c. c \<noteq> CHR ''{'') s @ b # rest \<and> b = CHR ''{''"
        unfolding dropWhile_eq_Cons_conv by blast
      moreover have "CHR ''{'' \<notin> set (takeWhile (\<lambda>c. c \<noteq> CHR ''{'') s)"
        using set_takeWhileD by fastforce
      ultimately obtain tw where d: "s = tw @ CHR ''{'' # rest" and t: "CHR ''{'' \<notin> set tw"
        by blast
      from d s have "tw @ CHR ''{'' # rest = pre @ CHR ''{'' # mid @ CHR ''}'' # post"
        by simp
      with t have "CHR ''}'' \<in> set rest"
        by (auto simp: append_eq_append_conv2 Cons_eq_append_conv append_eq_Cons_conv)
      with n show False unfolding json_match_def Cons by simp
    qed
  qed
next
  assume n: "\<not> (\<exists>pre mid post. s = pre @ CHR ''{'' # mid @ CHR ''}'' # post)"
  show "json_match s = None"
  proof (cases "dropWhile (\<lambda>c. c \<noteq> CHR ''{'') s")
    case Nil
    show ?thesis unfolding json_match_def Nil by simp
  next
    case (Cons b rest)
    have b: "b = CHR ''{''" using Cons hd_dropWhile [of "\<lambda>c. c \<noteq> CHR ''{''" s] by auto
    have s: "s = takeWhile (\<lambda>c. c \<noteq> CHR ''{'') s @ CHR ''{'' # rest"
      using Cons b takeWhile_dropWhile_id [of "\<lambda>c. c \<noteq> CHR ''{''" s] by simp
    have "CHR ''}'' \<notin> set rest"
    proof
      assume "CHR ''}'' \<in> set rest"
      then obtain m p where "rest = m @ CHR ''}'' # p" by (meson split_list)
      with s n show False by blast
    qed
    then show ?thesis unfolding json_match_def Cons by simp
  qed
qed

lemma digits_match_first:
  assumes "\<forall>c\<in>set pre. \<not> is_digit c" and "ds \<noteq> []" and "\<forall>c\<in>set ds. is_digit c"
    and "post = [] \<or> \<not> is_digit (hd post)"
  shows "digits_match (pre @ ds @ post) = Some ds"
proof -
  obtain d ds' where ds: "ds = d # ds'" using assms(2) by (cases ds) auto
  have a: "dropWhile (\<lambda>c. \<not> is_digit c) (pre @ ds @ post) = ds @ post"
    using assms(1,3) ds by simp
  have "takeWhile is_digit post = []"
    using assms(4) by (cases post) auto
  then have b: "takeWhile is_digit (ds @ post) = ds"
    using assms(3) by simp
  show ?thesis
    unfolding digits_match_def a b using ds by simp
qed

lemma digits_match_None_iff: "digits_match s = None \<longleftrightarrow> (\<forall>c\<in>set s. \<not> is_digit c)"
proof (cases "dropWhile (\<lambda>c. \<not> is_digit c) s")
  case Nil
  then have "\<forall>c\<in>set s. \<not> is_digit c" by simp
  moreover have "digits_match s = None" unfolding digits_match_def Nil by simp
  ultimately show ?thesis by simp
next
  case (Cons d rest)
  then have d: "is_digit d" and "d \<in> set s"
    using hd_dropWhile [of "\<lambda>c. \<not> is_digit c" s] set_dropWhileD [of d "\<lambda>c. \<not> is_digit c" s] by auto
  moreover have "digits_match s \<noteq> None" unfolding digits_match_def Cons using d by simp
  ultimately show ?thesis by auto
qed

lemma percent_scan_run:
  "\<forall>c\<in>set ds. is_digit c \<Longrightarrow> run @ ds \<noteq> [] \<Longrightarrow>
   percent_scan run (ds @ CHR ''%'' # post) = Some (run @ ds)"
  by (induction ds arbitrary: run) (auto simp: is_digit_def)

lemma percent_scan_skip:
  "\<forall>c\<in>set pre. \<not> is_digit c \<Longrightarrow> percent_scan [] (pre @ rest) = percent_scan [] rest"
  by (induction pre) auto

lemma percent_match_first:
  assumes "\<forall>c\<in>set pre. \<not> is_digit c" and "ds \<noteq> []" and "\<forall>c\<in>set ds. is_digit c"
  shows "percent_match (pre @ ds @ CHR ''%'' # post) = Some ds"
  using assms percent_scan_run [of ds "[]" post]
  by (simp add: percent_match_def percent_scan_skip)

lemma int_of_digits_nonneg: "0 \<le> int_of_digits ds"
  by (simp add: int_of_digits_def)

lemma recover_probability_nonneg: "0 \<le> recover_probability r"
  by (simp add: recover_probability_def int_of_digits_nonneg split: option.splits)

subsection \<open>The bound of the decoder\<close>

text \<open>
  The bound \<open>json_loads\<close> starts with is never exhausted: every step that spends two units
  of it consumes a character.
\<close>

lemma skip_ws_length: "length (skip_ws s) \<le> length s"
  by (simp add: skip_ws_def length_dropWhile_le)

lemma scanstring_shorter: "scanstring s = Inr (str, r) \<Longrightarrow> length r < length s"
proof (induction s arbitrary: str rule: scanstring.induct)
  case 1
  then show ?case by simp
next
  case (2 c cs)
  show ?case
  proof (cases "c = CHR 0x22")
    case True
    with 2 show ?thesis by simp
  next
    case nq: False
    show ?thesis
    proof (cases "c = CHR 0x5C")
      case False
      with nq 2 show ?thesis
        by (fastforce split: if_splits sum.splits)
    next
      case bs: True
      show ?thesis
      proof (cases cs)
        case Nil
        with nq bs 2 show ?thesis by simp
      next
        case (Cons e es)
        show ?thesis
        proof (cases "e = CHR ''u''")
          case False
          with nq bs Cons 2 show ?thesis
            by (fastforce split: if_splits sum.splits option.splits)
        next
          case True
          with nq bs Cons 2 show ?thesis
            by (fastforce split: if_splits sum.splits option.splits list.splits)
        qed
      qed
    qed
  qed
qed

lemma scanstring_class: "scanstring s = Inl x \<Longrightarrow> exn_cls x \<noteq> RecursionError"
proof (induction s rule: scanstring.induct)
  case 1
  then show ?case by (simp add: decode_error_def) (metis exn_cls.simps exn_class.distinct)
next
  case (2 c cs)
  show ?case
  proof (cases "c = CHR 0x22")
    case True
    with "2.prems" show ?thesis by simp
  next
    case nq: False
    show ?thesis
    proof (cases "c = CHR 0x5C")
      case nb: False
      show ?thesis
      proof (cases "(of_char c :: nat) < 32")
        case True
        with nq nb "2.prems" have "x = decode_error ''Invalid control character at''" by simp
        then show ?thesis by (simp add: decode_error_def)
      next
        case False
        with nq nb "2.prems" have "scanstring cs = Inl x"
          by (simp split: sum.splits prod.splits)
        with "2.IH"(3) nq nb False show ?thesis by simp
      qed
    next
      case bs: True
      show ?thesis
      proof (cases cs)
        case Nil
        with nq bs "2.prems" have "x = decode_error ''Unterminated string starting at''" by simp
        then show ?thesis by (simp add: decode_error_def)
      next
        case (Cons d ds)
        note cs = Cons
        show ?thesis
        proof (cases "d = CHR ''u''")
          case nu: False
          show ?thesis
          proof (cases "backslash d")
            case None
            with nq bs cs nu "2.prems"
            have "x = decode_error (''Invalid '' @ [CHR 0x5C] @ ''escape'')" by simp
            then show ?thesis by (simp add: decode_error_def)
          next
            case (Some ch)
            with nq bs cs nu "2.prems" have "scanstring ds = Inl x"
              by (simp split: sum.splits prod.splits)
            with "2.IH"(2) nq bs cs nu Some show ?thesis by simp
          qed
        next
          case u: True
          show ?thesis
          proof (cases "\<exists>h1 h2 h3 h4 r. ds = h1 # h2 # h3 # h4 # r")
            case False
            with nq bs cs u "2.prems"
            have "x = decode_error (''Invalid '' @ [CHR 0x5C] @ ''uXXXX escape'')"
              by (simp split: list.splits)
            then show ?thesis by (simp add: decode_error_def)
          next
            case True
            then obtain h1 h2 h3 h4 r where ds: "ds = h1 # h2 # h3 # h4 # r" by blast
            show ?thesis
            proof (cases "decode_uXXXX h1 h2 h3 h4")
              case None
              with nq bs cs u ds "2.prems"
              have "x = decode_error (''Invalid '' @ [CHR 0x5C] @ ''uXXXX escape'')" by simp
              then show ?thesis by (simp add: decode_error_def)
            next
              case (Some n)
              show ?thesis
              proof (cases "n < 256")
                case False
                with nq bs cs u ds Some "2.prems"
                have "x = Exn OtherException ''code point outside the text model''" by simp
                then show ?thesis by simp
              next
                case True
                with nq bs cs u ds Some "2.prems" have "scanstring r = Inl x"
                  by (simp split: sum.splits prod.splits)
                with "2.IH"(1) nq bs cs u ds Some True show ?thesis by simp
              qed
            qed
          qed
        qed
      qed
    qed
  qed
qed

lemma number_int_part_shorter: "number_int_part t = Some (ip, t') \<Longrightarrow> length t' < length t"
  by (cases t) (auto simp: number_int_part_def length_dropWhile_le le_imp_less_Suc split: if_splits)

lemma number_frac_part_length: "number_frac_part t = (fp, t') \<Longrightarrow> length t' \<le> length t"
proof (cases t)
  case Nil
  then show "number_frac_part t = (fp, t') \<Longrightarrow> length t' \<le> length t"
    by (simp add: number_frac_part_def)
next
  case (Cons p r)
  then show "number_frac_part t = (fp, t') \<Longrightarrow> length t' \<le> length t"
    by (cases r) (auto simp: number_frac_part_def length_dropWhile_le le_SucI split: if_splits)
qed

lemma number_exp_part_length: "number_exp_part t = (a, b, ep, t') \<Longrightarrow> length t' \<le> length t"
proof (cases t)
  case Nil
  then show "number_exp_part t = (a, b, ep, t') \<Longrightarrow> length t' \<le> length t"
    by (simp add: number_exp_part_def)
next
  case (Cons x r)
  note t = Cons
  show "number_exp_part t = (a, b, ep, t') \<Longrightarrow> length t' \<le> length t"
  proof (cases r)
    case Nil
    with t show "number_exp_part t = (a, b, ep, t') \<Longrightarrow> length t' \<le> length t"
      by (auto simp: number_exp_part_def split: if_splits)
  next
    case (Cons g r')
    with t show "number_exp_part t = (a, b, ep, t') \<Longrightarrow> length t' \<le> length t"
      by (cases r') (auto simp: number_exp_part_def length_dropWhile_le le_SucI split: if_splits)
  qed
qed

lemma match_number_shorter:
  assumes "match_number s = Some (v, r)"
  shows "length r < length s"
proof -
  obtain neg s1 where n: "(case s of [] \<Rightarrow> (False, s)
                       | c # r \<Rightarrow> if c = CHR ''-'' then (True, r) else (False, s)) = (neg, s1)"
    by (cases "(case s of [] \<Rightarrow> (False, s)
                       | c # r \<Rightarrow> if c = CHR ''-'' then (True, r) else (False, s))")
  then have l1: "length s1 \<le> length s"
    by (auto split: list.splits if_splits)
  from assms n obtain ip s2 where i: "number_int_part s1 = Some (ip, s2)"
    by (cases "number_int_part s1") (auto simp: match_number_def)
  obtain fp s3 where f: "number_frac_part s2 = (fp, s3)"
    by (cases "number_frac_part s2")
  obtain has_exp eneg ep s4 where e: "number_exp_part s3 = (has_exp, eneg, ep, s4)"
    by (cases "number_exp_part s3") auto
  from assms n i f e have "r = s4"
    by (auto simp: match_number_def split: if_splits)
  with l1 number_int_part_shorter [OF i] number_frac_part_length [OF f]
    number_exp_part_length [OF e]
  show ?thesis by simp
qed

lemma wb_err: "within_bound (Inl (decode_error m)) s"
  by (simp add: within_bound_def decode_error_def)

lemma wb_ret: "length r < length s \<Longrightarrow> within_bound (Inr (v, r)) s"
  by (simp add: within_bound_def)

lemma wb_mono: "within_bound res t \<Longrightarrow> length t \<le> length s \<Longrightarrow> within_bound res s"
  by (auto simp: within_bound_def split: sum.splits)

lemma wb_scanstring:
  "within_bound (case scanstring cs of Inl x \<Rightarrow> Inl x | Inr (str, r) \<Rightarrow> Inr (JString str, r)) (c # cs)"
  by (cases "scanstring cs")
     (auto simp: within_bound_def dest: scanstring_class scanstring_shorter)

lemma skip_ws_Cons_length: "skip_ws s = d # r \<Longrightarrow> length r < length s"
  using skip_ws_length [of s] by simp

lemma wb_if: "within_bound a s \<Longrightarrow> within_bound b s \<Longrightarrow> within_bound (if c then a else b) s"
  by simp

lemma wb_drop: "s \<noteq> [] \<Longrightarrow> 0 < k \<Longrightarrow> within_bound (Inr (v, drop k s)) s"
  by (cases s) (auto simp: within_bound_def)

lemma wb_number:
  "within_bound b s \<Longrightarrow> within_bound (case match_number s of Some res \<Rightarrow> Inr res | None \<Rightarrow> b) s"
  by (cases "match_number s") (auto simp: within_bound_def dest: match_number_shorter)

lemma wb_literals:
  assumes "s \<noteq> []"
  shows "within_bound
     (if take 4 s = ''null'' then Inr (JNull, drop 4 s)
      else if take 4 s = ''true'' then Inr (JBool True, drop 4 s)
      else if take 5 s = ''false'' then Inr (JBool False, drop 5 s)
      else
        (case match_number s of
           Some res \<Rightarrow> Inr res
         | None \<Rightarrow>
             (if take 3 s = ''NaN'' then Inr (JFloat NaN, drop 3 s)
              else if take 8 s = ''Infinity'' then Inr (JFloat PosInf, drop 8 s)
              else if take 9 s = ''-Infinity'' then Inr (JFloat NegInf, drop 9 s)
              else Inl (decode_error ''Expecting value'')))) s"
  by (intro wb_if wb_number wb_drop wb_err assms) simp_all

lemma scan_once_step:
  assumes obj: "\<And>ps t. 2 * length t + 2 \<le> n \<Longrightarrow> within_bound (object_pairs n ps t) t"
    and arr: "\<And>xs t. 2 * length t + 2 \<le> n \<Longrightarrow> within_bound (array_items n xs t) t"
    and n: "2 * length s + 1 \<le> Suc n"
  shows "within_bound (scan_once (Suc n) s) s"
proof (cases s)
  case Nil
  then show ?thesis by (simp add: wb_err)
next
  case (Cons c cs)
  note s = Cons
  show ?thesis
  proof (cases "c = CHR 0x22")
    case True
    with s show ?thesis using wb_scanstring [of cs c] by simp
  next
    case nq: False
    show ?thesis
    proof (cases "c = CHR ''{''")
      case ob: True
      show ?thesis
      proof (cases "skip_ws cs")
        case Nil
        with s nq ob show ?thesis by (simp add: wb_err)
      next
        case (Cons d r)
        note w = Cons
        have lr: "length r < length cs" using w by (rule skip_ws_Cons_length)
        show ?thesis
        proof (cases "d = CHR ''}''")
          case True
          with s nq ob w lr show ?thesis by (simp add: wb_ret)
        next
          case nc: False
          show ?thesis
          proof (cases "d = CHR 0x22")
            case False
            with s nq ob w nc show ?thesis by (simp add: wb_err)
          next
            case True
            have "2 * length r + 2 \<le> n" using n s lr by simp
            then have "within_bound (object_pairs n [] r) r" by (rule obj)
            then have "within_bound (object_pairs n [] r) s"
              using lr s by (auto intro: wb_mono)
            with s nq ob w nc True show ?thesis by simp
          qed
        qed
      qed
    next
      case nob: False
      show ?thesis
      proof (cases "c = CHR ''[''")
        case ar: True
        show ?thesis
        proof (cases "skip_ws cs")
          case Nil
          with s nq nob ar show ?thesis by (simp add: wb_err)
        next
          case (Cons d r)
          note w = Cons
          have lr: "length r < length cs" using w by (rule skip_ws_Cons_length)
          show ?thesis
          proof (cases "d = CHR '']''")
            case True
            with s nq nob ar w lr show ?thesis by (simp add: wb_ret)
          next
            case False
            have "2 * length (d # r) + 2 \<le> n" using n s lr by simp
            then have "within_bound (array_items n [] (d # r)) (d # r)" by (rule arr)
            then have "within_bound (array_items n [] (d # r)) s"
              using lr s by (auto intro: wb_mono)
            with s nq nob ar w False show ?thesis by simp
          qed
        qed
      next
        case nar: False
        have "scan_once (Suc n) (c # cs) =
          (if take 4 (c # cs) = ''null'' then Inr (JNull, drop 4 (c # cs))
           else if take 4 (c # cs) = ''true'' then Inr (JBool True, drop 4 (c # cs))
           else if take 5 (c # cs) = ''false'' then Inr (JBool False, drop 5 (c # cs))
           else
             (case match_number (c # cs) of
                Some res \<Rightarrow> Inr res
              | None \<Rightarrow>
                  (if take 3 (c # cs) = ''NaN'' then Inr (JFloat NaN, drop 3 (c # cs))
                   else if take 8 (c # cs) = ''Infinity'' then Inr (JFloat PosInf, drop 8 (c # cs))
                   else if take 9 (c # cs) = ''-Infinity'' then Inr (JFloat NegInf, drop 9 (c # cs))
                   else Inl (decode_error ''Expecting value''))))"
          unfolding scan_once.simps list.case using nq nob nar by (simp only: if_False)
        then show ?thesis
          unfolding s using wb_literals [of "c # cs"] by simp
      qed
    qed
  qed
qed

lemma array_items_step:
  assumes sc: "\<And>t. 2 * length t + 1 \<le> n \<Longrightarrow> within_bound (scan_once n t) t"
    and arr: "\<And>xs t. 2 * length t + 2 \<le> n \<Longrightarrow> within_bound (array_items n xs t) t"
    and n: "2 * length s + 2 \<le> Suc n"
  shows "within_bound (array_items (Suc n) xs s) s"
proof -
  have v: "within_bound (scan_once n s) s" using n by (intro sc) simp
  show ?thesis
  proof (cases "scan_once n s")
    case (Inl x)
    with v show ?thesis by (simp add: within_bound_def)
  next
    case (Inr res)
    obtain v' r where res: "res = (v', r)" by (cases res)
    have lr: "length r < length s" using v Inr res by (simp add: within_bound_def)
    show ?thesis
    proof (cases "skip_ws r")
      case Nil
      with Inr res show ?thesis by (simp add: wb_err)
    next
      case (Cons d r1)
      note w = Cons
      have l1: "length r1 < length r" using w by (rule skip_ws_Cons_length)
      show ?thesis
      proof (cases "d = CHR '']''")
        case True
        with Inr res w l1 lr show ?thesis by (simp add: wb_ret)
      next
        case nb: False
        show ?thesis
        proof (cases "d = CHR '',''")
          case False
          with Inr res w nb show ?thesis by (simp add: wb_err)
        next
          case True
          have l2: "length (skip_ws r1) \<le> length r1" by (rule skip_ws_length)
          have "2 * length (skip_ws r1) + 2 \<le> n" using n lr l1 l2 by simp
          then have "within_bound (array_items n (xs @ [v']) (skip_ws r1)) (skip_ws r1)"
            by (rule arr)
          then have "within_bound (array_items n (xs @ [v']) (skip_ws r1)) s"
            using lr l1 l2 by (auto intro: wb_mono)
          with Inr res w nb True show ?thesis by simp
        qed
      qed
    qed
  qed
qed

lemma object_pairs_step:
  assumes sc: "\<And>t. 2 * length t + 1 \<le> n \<Longrightarrow> within_bound (scan_once n t) t"
    and obj: "\<And>ps t. 2 * length t + 2 \<le> n \<Longrightarrow> within_bound (object_pairs n ps t) t"
    and n: "2 * length s + 2 \<le> Suc n"
  shows "within_bound (object_pairs (Suc n) ps s) s"
proof (cases "scanstring s")
  case (Inl x)
  then show ?thesis by (simp add: within_bound_def scanstring_class)
next
  case (Inr kr)
  obtain key r where kr: "kr = (key, r)" by (cases kr)
  have lr: "length r < length s" using Inr kr by (simp add: scanstring_shorter)
  show ?thesis
  proof (cases "skip_ws r")
    case Nil
    with Inr kr show ?thesis by (simp add: wb_err)
  next
    case (Cons c r1)
    note w = Cons
    have l1: "length r1 < length r" using w by (rule skip_ws_Cons_length)
    show ?thesis
    proof (cases "c = CHR '':''")
      case False
      with Inr kr w show ?thesis by (simp add: wb_err)
    next
      case col: True
      have l2: "length (skip_ws r1) \<le> length r1" by (rule skip_ws_length)
      have v: "within_bound (scan_once n (skip_ws r1)) (skip_ws r1)"
        using n lr l1 l2 by (intro sc) simp
      show ?thesis
      proof (cases "scan_once n (skip_ws r1)")
        case (Inl x)
        with v Inr kr w col show ?thesis by (simp add: within_bound_def)
      next
        case val: (Inr res)
        obtain v' r2 where res: "res = (v', r2)" by (cases res)
        have l3: "length r2 < length (skip_ws r1)" using v val res by (simp add: within_bound_def)
        show ?thesis
        proof (cases "skip_ws r2")
          case Nil
          with Inr kr w col val res show ?thesis by (simp add: wb_err)
        next
          case (Cons d r3)
          note w2 = Cons
          have l4: "length r3 < length r2" using w2 by (rule skip_ws_Cons_length)
          show ?thesis
          proof (cases "d = CHR ''}''")
            case True
            with Inr kr w col val res w2 l4 l3 l2 l1 lr show ?thesis by (simp add: wb_ret)
          next
            case nc: False
            show ?thesis
            proof (cases "d = CHR '',''")
              case False
              with Inr kr w col val res w2 nc show ?thesis by (simp add: wb_err)
            next
              case com: True
              show ?thesis
              proof (cases "skip_ws r3")
                case Nil
                with Inr kr w col val res w2 nc com show ?thesis by (simp add: wb_err)
              next
                case (Cons q r4)
                note w3 = Cons
                have l5: "length r4 < length r3" using w3 by (rule skip_ws_Cons_length)
                show ?thesis
                proof (cases "q = CHR 0x22")
                  case False
                  with Inr kr w col val res w2 nc com w3 show ?thesis by (simp add: wb_err)
                next
                  case True
                  have "2 * length r4 + 2 \<le> n" using n lr l1 l2 l3 l4 l5 by simp
                  then have "within_bound (object_pairs n (ps @ [(key, v')]) r4) r4"
                    by (rule obj)
                  then have "within_bound (object_pairs n (ps @ [(key, v')]) r4) s"
                    using lr l1 l2 l3 l4 l5 by (auto intro: wb_mono)
                  with Inr kr w col val res w2 nc com w3 True show ?thesis by simp
                qed
              qed
            qed
          qed
        qed
      qed
    qed
  qed
qed

lemma decoder_bound:
  "(\<forall>s. 2 * length s + 1 \<le> n \<longrightarrow> within_bound (scan_once n s) s) \<and>
   (\<forall>ps s. 2 * length s + 2 \<le> n \<longrightarrow> within_bound (object_pairs n ps s) s) \<and>
   (\<forall>xs s. 2 * length s + 2 \<le> n \<longrightarrow> within_bound (array_items n xs s) s)"
proof (induction n)
  case 0
  show ?case by simp
next
  case (Suc n)
  then have sc: "\<And>t. 2 * length t + 1 \<le> n \<Longrightarrow> within_bound (scan_once n t) t"
    and obj: "\<And>ps t. 2 * length t + 2 \<le> n \<Longrightarrow> within_bound (object_pairs n ps t) t"
    and arr: "\<And>xs t. 2 * length t + 2 \<le> n \<Longrightarrow> within_bound (array_items n xs t) t"
    by blast+
  show ?case
    using scan_once_step [OF obj arr] object_pairs_step [OF sc obj] array_items_step [OF sc arr]
    by blast
qed

lemma json_loads_within_bound:
  "json_loads s = Inl x \<Longrightarrow> exn_cls x \<noteq> RecursionError"
proof -
  assume a: "json_loads s = Inl x"
  have "2 * length (skip_ws s) + 1 \<le> 2 * length s + 2"
    using skip_ws_length [of s] by simp
  then have w: "within_bound (scan_once (2 * length s + 2) (skip_ws s)) (skip_ws s)"
    using decoder_bound [of "2 * length s + 2"] by blast
  show ?thesis
  proof (cases "scan_once (2 * length s + 2) (skip_ws s)")
    case (Inl y)
    with a w show ?thesis by (simp add: json_loads_def within_bound_def)
  next
    case (Inr res)
    with a have "x = decode_error ''Extra data''"
      by (simp add: json_loads_def split: prod.splits if_splits)
    then show ?thesis by (simp add: decode_error_def)
  qed
qed

subsection \<open>The calls a run makes\<close>

lemma web_search_calls:
  "web_search api q n calls = (d, calls') \<Longrightarrow> calls' = calls @ [SearchReq q n]"
  by (auto simp: web_search_def web_search_body_def create_def split: sum.splits api_outcome.splits)

lemma search_all_calls:
  "search_all api qs calls = (ds, calls') \<Longrightarrow> calls' = calls @ map (\<lambda>q. SearchReq q 1500) qs"
proof (induction qs arbitrary: calls ds calls')
  case Nil
  then show ?case by simp
next
  case (Cons q qs)
  obtain d c1 where w: "web_search api q 1500 calls = (d, c1)"
    by (cases "web_search api q 1500 calls")
  obtain r c2 where s: "search_all api qs c1 = (r, c2)"
    by (cases "search_all api qs c1")
  from Cons.prems w s have "calls' = c2" by simp
  moreover from w have "c1 = calls @ [SearchReq q 1500]" by (rule web_search_calls)
  moreover from s have "c2 = c1 @ map (\<lambda>q. SearchReq q 1500) qs" by (rule Cons.IH)
  ultimately show ?case by simp
qed

lemma gather_calls:
  "snd (gather_search_data api full_name calls) = calls @ map (\<lambda>q. SearchReq q 1500) (search_queries full_name)"
  by (auto simp: gather_search_data_def split: prod.splits dest: search_all_calls)

lemma analyze_ethnic_image_reply:
  assumes "image_source fs p u b = Some (Inr url)" and "api calls (VisionReq url person) = Reply r"
  shows "analyze_ethnic_image fs api loads p u b person calls =
           ((case image_reply loads r of
               Inr v \<Rightarrow> v
             | Inl e \<Rightarrow> JObject [(''errore'', JString (''Error in image analysis: '' @ exn_str e))]),
            calls @ [VisionReq url person])"
  using assms
  by (simp add: analyze_ethnic_image_def analyze_ethnic_image_body_def vision_call_def create_def
      split: sum.splits)

lemma calculate_jewish_probability_reply:
  assumes "api calls (ScoreReq sd (image_block ia)) = Reply r"
  shows "calculate_jewish_probability api loads sd ia calls =
           ((case score_reply loads r of
               Inr v \<Rightarrow> v
             | Inl e \<Rightarrow> JObject [(''errore'', JString (''Error calculating score: '' @ exn_str e))]),
            calls @ [ScoreReq sd (image_block ia)])"
  using assms
  by (simp add: calculate_jewish_probability_def calculate_jewish_probability_body_def create_def
      split: sum.splits)

lemma analyze_ethnic_image_calls:
  "image_source fs p u b = Some (Inr url) \<Longrightarrow>
   snd (analyze_ethnic_image fs api loads p u b person calls) = calls @ [VisionReq url person]"
  by (simp add: analyze_ethnic_image_def analyze_ethnic_image_body_def vision_call_def create_def
      split: sum.splits api_outcome.splits)

subsection \<open>Reading the replies\<close>




text \<open>
  C3 (as the code has it). When the reply has no brace span, the score is the first run of
  digits of the reply, or 50 when the reply has no digit, with the indicator
  \<open>unstructured analysis\<close>. When the reply has a brace span that the decoder rejects, the
  score is 50 whatever digits the reply holds, with the indicator \<open>analysis error\<close>. Every
  one of these results carries the first 200 characters of the reply as its explanation.
\<close>

theorem image_reply_fallbacks:
  assumes "image_source fs p u b = Some (Inr url)"
    and "api calls (VisionReq url person) = Reply r"
  shows "(json_match r = None \<and> r = pre @ ds @ post \<and> (\<forall>c\<in>set pre. \<not> is_digit c) \<and>
            ds \<noteq> [] \<and> (\<forall>c\<in>set ds. is_digit c) \<and> (post = [] \<or> \<not> is_digit (hd post)) \<longrightarrow>
            fst (analyze_ethnic_image fs api loads p u b person calls) =
              JObject [(''punteggio_immagine'', JInt (int_of_digits ds)),
                       (''indicatori_visivi'', JArray [JString ''unstructured analysis'']),
                       (''spiegazione'', JString (take 200 r))]) \<and>
         (json_match r = None \<and> (\<forall>c\<in>set r. \<not> is_digit c) \<longrightarrow>
            fst (analyze_ethnic_image fs api loads p u b person calls) =
              JObject [(''punteggio_immagine'', JInt 50),
                       (''indicatori_visivi'', JArray [JString ''unstructured analysis'']),
                       (''spiegazione'', JString (take 200 r))]) \<and>
         (json_match r = Some m \<and> loads m = Inl e \<and>
            (exn_cls e = JSONDecodeError \<or> exn_cls e = ValueError) \<longrightarrow>
            fst (analyze_ethnic_image fs api loads p u b person calls) =
              JObject [(''punteggio_immagine'', JInt 50),
                       (''indicatori_visivi'', JArray [JString ''analysis error'']),
                       (''spiegazione'', JString (take 200 r))])"
proof -
  have 1: "json_match r = None \<and> r = pre @ ds @ post \<and> (\<forall>c\<in>set pre. \<not> is_digit c) \<and>
            ds \<noteq> [] \<and> (\<forall>c\<in>set ds. is_digit c) \<and> (post = [] \<or> \<not> is_digit (hd post)) \<Longrightarrow>
           image_reply loads r = Inr (image_fallback (int_of_digits ds) ''unstructured analysis'' r)"
    using digits_match_first [of pre ds post]
    by (auto simp: image_reply_def image_reply_try_def)
  have 2: "json_match r = None \<and> (\<forall>c\<in>set r. \<not> is_digit c) \<Longrightarrow>
           image_reply loads r = Inr (image_fallback 50 ''unstructured analysis'' r)"
    using digits_match_None_iff [of r]
    by (simp add: image_reply_def image_reply_try_def)
  have 3: "json_match r = Some m \<and> loads m = Inl e \<and>
            (exn_cls e = JSONDecodeError \<or> exn_cls e = ValueError) \<Longrightarrow>
           image_reply loads r = Inr (image_fallback 50 ''analysis error'' r)"
    by (auto simp: image_reply_def image_reply_try_def)
  have "analyze_ethnic_image fs api loads p u b person calls =
           ((case image_reply loads r of
               Inr v \<Rightarrow> v
             | Inl e \<Rightarrow> JObject [(''errore'', JString (''Error in image analysis: '' @ exn_str e))]),
            calls @ [VisionReq url person])"
    using assms by (rule analyze_ethnic_image_reply)
  then show ?thesis
    using 1 2 3 by (auto simp: image_fallback_def)
qed

text \<open>The theorem at three replies, one for each fallback.\<close>

theorem image_reply_fallbacks_witness:
  \<open>fst (analyze_ethnic_image (one_file ''QUJD'') (stub_api [] ''around 65'' []) json_loads
          None None (Some ''QUJD'') ''Jane Doe'' [])
     = JObject [(''punteggio_immagine'', JInt 65),
                (''indicatori_visivi'', JArray [JString ''unstructured analysis'']),
                (''spiegazione'', JString ''around 65'')] \<and>
   fst (analyze_ethnic_image (one_file ''QUJD'') (stub_api [] ''no idea'' []) json_loads
          None None (Some ''QUJD'') ''Jane Doe'' [])
     = JObject [(''punteggio_immagine'', JInt 50),
                (''indicatori_visivi'', JArray [JString ''unstructured analysis'']),
                (''spiegazione'', JString ''no idea'')] \<and>
   fst (analyze_ethnic_image (one_file ''QUJD'') (stub_api [] ''{score: 65}'' []) json_loads
          None None (Some ''QUJD'') ''Jane Doe'' [])
     = JObject [(''punteggio_immagine'', JInt 50),
                (''indicatori_visivi'', JArray [JString ''analysis error'']),
                (''spiegazione'', JString ''{score: 65}'')]\<close>
proof -
  have s: "image_source (one_file ''QUJD'') None None (Some ''QUJD'')
             = Some (Inr ''data:image/jpeg;base64,QUJD'')"
    by (simp add: image_source_def supplied_def)
  have m1: "json_match ''around 65'' = None" by code_simp
  have m2: "json_match ''no idea'' = None" by code_simp
  have m3: "json_match ''{score: 65}'' = Some ''{score: 65}''" by code_simp
  have l3: "json_loads ''{score: 65}'' =
              Inl (Exn JSONDecodeError ''Expecting property name enclosed in double quotes'')"
    by code_simp
  have v: "int_of_digits ''65'' = 65" by code_simp
  have a: "stub_api [] ''around 65'' [] [] (VisionReq ''data:image/jpeg;base64,QUJD'' ''Jane Doe'')
             = Reply ''around 65''"
    by (simp add: stub_api_def)
  have b: "stub_api [] ''no idea'' [] [] (VisionReq ''data:image/jpeg;base64,QUJD'' ''Jane Doe'')
             = Reply ''no idea''"
    by (simp add: stub_api_def)
  have c: "stub_api [] ''{score: 65}'' [] [] (VisionReq ''data:image/jpeg;base64,QUJD'' ''Jane Doe'')
             = Reply ''{score: 65}''"
    by (simp add: stub_api_def)
  show ?thesis
    using image_reply_fallbacks [of "one_file ''QUJD''" None None "Some ''QUJD''"
        "''data:image/jpeg;base64,QUJD''" "stub_api [] ''around 65'' []" "[]" "''Jane Doe''"
        "''around 65''" "''around ''" "''65''" "[]" json_loads]
      image_reply_fallbacks [of "one_file ''QUJD''" None None "Some ''QUJD''"
        "''data:image/jpeg;base64,QUJD''" "stub_api [] ''no idea'' []" "[]" "''Jane Doe''"
        "''no idea''" _ _ _ json_loads]
      image_reply_fallbacks [of "one_file ''QUJD''" None None "Some ''QUJD''"
        "''data:image/jpeg;base64,QUJD''" "stub_api [] ''{score: 65}'' []" "[]" "''Jane Doe''"
        "''{score: 65}''" _ _ _ json_loads "''{score: 65}''"
        "Exn JSONDecodeError ''Expecting property name enclosed in double quotes''"]
    by (simp add: s a b c m1 m2 m3 l3 v is_digit_def)
qed

text \<open>
  C3 as stated fails: this reply has a malformed object and its first integer is 65, and the
  score returned is 50.
\<close>

theorem malformed_first_integer_counterexample:
  \<open>json_match ''{around 65}'' = Some ''{around 65}'' \<and>
   json_loads ''{around 65}'' =
     Inl (Exn JSONDecodeError ''Expecting property name enclosed in double quotes'') \<and>
   digits_match ''{around 65}'' = Some ''65'' \<and>
   fst (analyze_ethnic_image (one_file ''QUJD'') (stub_api [] ''{around 65}'' []) json_loads
          None None (Some ''QUJD'') ''Jane Doe'' [])
     = JObject [(''punteggio_immagine'', JInt 50),
                (''indicatori_visivi'', JArray [JString ''analysis error'']),
                (''spiegazione'', JString ''{around 65}'')]\<close>
  by code_simp




text \<open>
  C5 (as the code has it). No result is checked against a range. A score or probability
  that a fallback recovers is an integer that is not negative, and nothing bounds it by 100;
  the confidence of a fallback is 0.5 or 0.3, hence within 0 and 1; a value decoded from
  the reply is returned as it is.
\<close>

theorem fallback_ranges:
  "(image_source fs p u b = Some (Inr url) \<and> api calls (VisionReq url person) = Reply r \<longrightarrow>
      (json_match r = None \<longrightarrow>
         (\<exists>n. dict_get ''punteggio_immagine''
                (fst (analyze_ethnic_image fs api loads p u b person calls)) = Some (JInt n) \<and>
              0 \<le> n)) \<and>
      (json_match r = Some m \<and> loads m = Inl e \<and>
         (exn_cls e = JSONDecodeError \<or> exn_cls e = ValueError) \<longrightarrow>
         dict_get ''punteggio_immagine''
           (fst (analyze_ethnic_image fs api loads p u b person calls)) = Some (JInt 50)) \<and>
      (json_match r = Some m \<and> loads m = Inr v \<longrightarrow>
         fst (analyze_ethnic_image fs api loads p u b person calls) = v)) \<and>
   (api calls (ScoreReq sd (image_block ia)) = Reply r \<longrightarrow>
      (json_match r = None \<or>
       (json_match r = Some m \<and> loads m = Inr v \<and>
          py_contains ''probabilita_percentuale'' v = Inr False) \<or>
       (json_match r = Some m \<and> loads m = Inl e \<and>
          (exn_cls e = JSONDecodeError \<or> exn_cls e = ValueError \<or> exn_cls e = AttributeError)) \<longrightarrow>
         (\<exists>n c. dict_get ''probabilita_percentuale''
                  (fst (calculate_jewish_probability api loads sd ia calls)) = Some (JInt n) \<and>
                0 \<le> n \<and>
                dict_get ''confidenza''
                  (fst (calculate_jewish_probability api loads sd ia calls))
                  = Some (JFloat (Finite c)) \<and>
                0 \<le> c \<and> c \<le> 1)) \<and>
      (json_match r = Some m \<and> loads m = Inr v \<and>
         py_contains ''probabilita_percentuale'' v = Inr True \<longrightarrow>
         fst (calculate_jewish_probability api loads sd ia calls) = v))"
proof -
  have i1: "json_match r = None \<Longrightarrow>
      image_reply loads r =
        Inr (image_fallback (case digits_match r of Some ds \<Rightarrow> int_of_digits ds | None \<Rightarrow> 50)
               ''unstructured analysis'' r)"
    by (simp add: image_reply_def image_reply_try_def)
  have i0: "0 \<le> (case digits_match r of Some ds \<Rightarrow> int_of_digits ds | None \<Rightarrow> 50)"
    by (simp add: int_of_digits_nonneg split: option.splits)
  have i2: "json_match r = Some m \<and> loads m = Inl e \<and>
         (exn_cls e = JSONDecodeError \<or> exn_cls e = ValueError) \<Longrightarrow>
      image_reply loads r = Inr (image_fallback 50 ''analysis error'' r)"
    by (auto simp: image_reply_def image_reply_try_def)
  have i3: "json_match r = Some m \<and> loads m = Inr v \<Longrightarrow> image_reply loads r = Inr v"
    by (simp add: image_reply_def image_reply_try_def)
  have s1: "\<exists>label c. score_reply loads r = Inr (score_fallback (recover_probability r) label c r) \<and>
                0 \<le> c \<and> c \<le> 1"
    if h: "json_match r = None \<or>
       (json_match r = Some m \<and> loads m = Inr v \<and>
          py_contains ''probabilita_percentuale'' v = Inr False) \<or>
       (json_match r = Some m \<and> loads m = Inl e \<and>
          (exn_cls e = JSONDecodeError \<or> exn_cls e = ValueError \<or> exn_cls e = AttributeError))"
  proof -
    have half: "(0::rat) \<le> 5 / 10 \<and> (5::rat) / 10 \<le> 1" by simp
    have third: "(0::rat) \<le> 3 / 10 \<and> (3::rat) / 10 \<le> 1" by simp
    from h consider
        (none) "json_match r = None"
      | (nokey) "json_match r = Some m" "loads m = Inr v"
          "py_contains ''probabilita_percentuale'' v = Inr False"
      | (raised) "json_match r = Some m" "loads m = Inl e"
          "exn_cls e = JSONDecodeError \<or> exn_cls e = ValueError \<or> exn_cls e = AttributeError"
      by auto
    then show ?thesis
    proof cases
      case none
      then have "score_reply loads r =
          Inr (score_fallback (recover_probability r) ''unstructured analysis'' (5 / 10) r)"
        by (simp add: score_reply_def score_reply_try_def)
      with half show ?thesis by blast
    next
      case nokey
      then have "score_reply loads r =
          Inr (score_fallback (recover_probability r) ''fallback analysis'' (5 / 10) r)"
        by (simp add: score_reply_def score_reply_try_def)
      with half show ?thesis by blast
    next
      case raised
      then have "score_reply loads r =
          Inr (score_fallback (recover_probability r) ''analysis error fallback'' (3 / 10) r)"
        by (auto simp: score_reply_def score_reply_try_def)
      with third show ?thesis by blast
    qed
  qed
  have s2: "json_match r = Some m \<and> loads m = Inr v \<and>
         py_contains ''probabilita_percentuale'' v = Inr True \<Longrightarrow> score_reply loads r = Inr v"
    by (simp add: score_reply_def score_reply_try_def)
  have a: "image_source fs p u b = Some (Inr url) \<and> api calls (VisionReq url person) = Reply r \<Longrightarrow>
      fst (analyze_ethnic_image fs api loads p u b person calls) =
        (case image_reply loads r of
           Inr v \<Rightarrow> v
         | Inl e \<Rightarrow> JObject [(''errore'', JString (''Error in image analysis: '' @ exn_str e))])"
    by (simp add: analyze_ethnic_image_reply)
  have c: "api calls (ScoreReq sd (image_block ia)) = Reply r \<Longrightarrow>
      fst (calculate_jewish_probability api loads sd ia calls) =
        (case score_reply loads r of
           Inr v \<Rightarrow> v
         | Inl e \<Rightarrow> JObject [(''errore'', JString (''Error calculating score: '' @ exn_str e))])"
    by (simp add: calculate_jewish_probability_reply)
  have A: "image_source fs p u b = Some (Inr url) \<and> api calls (VisionReq url person) = Reply r \<Longrightarrow>
      (json_match r = None \<longrightarrow>
         (\<exists>n. dict_get ''punteggio_immagine''
                (fst (analyze_ethnic_image fs api loads p u b person calls)) = Some (JInt n) \<and>
              0 \<le> n)) \<and>
      (json_match r = Some m \<and> loads m = Inl e \<and>
         (exn_cls e = JSONDecodeError \<or> exn_cls e = ValueError) \<longrightarrow>
         dict_get ''punteggio_immagine''
           (fst (analyze_ethnic_image fs api loads p u b person calls)) = Some (JInt 50)) \<and>
      (json_match r = Some m \<and> loads m = Inr v \<longrightarrow>
         fst (analyze_ethnic_image fs api loads p u b person calls) = v)"
    using i0 i1 i2 i3 by (auto simp: a image_fallback_def)
  have C: "api calls (ScoreReq sd (image_block ia)) = Reply r \<Longrightarrow>
      (json_match r = None \<or>
       (json_match r = Some m \<and> loads m = Inr v \<and>
          py_contains ''probabilita_percentuale'' v = Inr False) \<or>
       (json_match r = Some m \<and> loads m = Inl e \<and>
          (exn_cls e = JSONDecodeError \<or> exn_cls e = ValueError \<or> exn_cls e = AttributeError)) \<longrightarrow>
         (\<exists>n c. dict_get ''probabilita_percentuale''
                  (fst (calculate_jewish_probability api loads sd ia calls)) = Some (JInt n) \<and>
                0 \<le> n \<and>
                dict_get ''confidenza''
                  (fst (calculate_jewish_probability api loads sd ia calls))
                  = Some (JFloat (Finite c)) \<and>
                0 \<le> c \<and> c \<le> 1)) \<and>
      (json_match r = Some m \<and> loads m = Inr v \<and>
         py_contains ''probabilita_percentuale'' v = Inr True \<longrightarrow>
         fst (calculate_jewish_probability api loads sd ia calls) = v)"
  proof (intro conjI impI)
    assume r: "api calls (ScoreReq sd (image_block ia)) = Reply r"
    assume "json_match r = None \<or>
       (json_match r = Some m \<and> loads m = Inr v \<and>
          py_contains ''probabilita_percentuale'' v = Inr False) \<or>
       (json_match r = Some m \<and> loads m = Inl e \<and>
          (exn_cls e = JSONDecodeError \<or> exn_cls e = ValueError \<or> exn_cls e = AttributeError))"
    then obtain label c where
      f: "score_reply loads r = Inr (score_fallback (recover_probability r) label c r)"
      and b: "0 \<le> c" "c \<le> 1"
      using s1 by blast
    show "\<exists>n c. dict_get ''probabilita_percentuale''
                  (fst (calculate_jewish_probability api loads sd ia calls)) = Some (JInt n) \<and>
                0 \<le> n \<and>
                dict_get ''confidenza''
                  (fst (calculate_jewish_probability api loads sd ia calls))
                  = Some (JFloat (Finite c)) \<and>
                0 \<le> c \<and> c \<le> 1"
      using c [OF r] f b recover_probability_nonneg [of r]
      by (simp add: score_fallback_def)
  next
    assume r: "api calls (ScoreReq sd (image_block ia)) = Reply r"
    assume "json_match r = Some m \<and> loads m = Inr v \<and>
         py_contains ''probabilita_percentuale'' v = Inr True"
    then show "fst (calculate_jewish_probability api loads sd ia calls) = v"
      using c [OF r] s2 by simp
  qed
  from A C show ?thesis by blast
qed

text \<open>The theorem at an image reply and at a scoring reply.\<close>

theorem fallback_ranges_witness:
  \<open>(\<exists>n. dict_get ''punteggio_immagine''
         (fst (analyze_ethnic_image (one_file ''QUJD'') (stub_api [] ''around 65'' []) json_loads
                 None None (Some ''QUJD'') ''Jane Doe'' [])) = Some (JInt n) \<and> 0 \<le> n) \<and>
   (\<exists>n c. dict_get ''probabilita_percentuale''
           (fst (calculate_jewish_probability (stub_api [] [] ''{probably} 41%'') json_loads
                   ''search text'' None [])) = Some (JInt n) \<and> 0 \<le> n \<and>
         dict_get ''confidenza''
           (fst (calculate_jewish_probability (stub_api [] [] ''{probably} 41%'') json_loads
                   ''search text'' None [])) = Some (JFloat (Finite c)) \<and> 0 \<le> c \<and> c \<le> 1)\<close>
proof -
  have s: "image_source (one_file ''QUJD'') None None (Some ''QUJD'')
             = Some (Inr ''data:image/jpeg;base64,QUJD'')"
    by (simp add: image_source_def supplied_def)
  have m1: "json_match ''around 65'' = None" by code_simp
  have m3: "json_match ''{probably} 41%'' = Some ''{probably}''" by code_simp
  have l3: "json_loads ''{probably}'' =
              Inl (Exn JSONDecodeError ''Expecting property name enclosed in double quotes'')"
    by code_simp
  show ?thesis
    using fallback_ranges [of "one_file ''QUJD''" None None "Some ''QUJD''"
            "''data:image/jpeg;base64,QUJD''" "stub_api [] ''around 65'' []" "[]" "''Jane Doe''"
            "''around 65''" json_loads]
      fallback_ranges [of _ _ _ _ _ "stub_api [] [] ''{probably} 41%''" "[]" _
            "''{probably} 41%''" json_loads "''{probably}''"
            "Exn JSONDecodeError ''Expecting property name enclosed in double quotes''" _
            "''search text''" None]
    by (simp add: stub_api_def s m1 m3 l3)
qed

text \<open>
  C5 as stated fails: the first integer of an image reply may be a year, a percent figure
  may exceed 100, and a decoded object keeps whatever numbers the reply wrote.
\<close>

theorem score_range_counterexample:
  \<open>dict_get ''punteggio_immagine''
     (fst (analyze_ethnic_image (one_file ''QUJD'') (stub_api [] ''Photo from 1998, score 65'' [])
             json_loads None None (Some ''QUJD'') ''Jane Doe'' [])) = Some (JInt 1998) \<and>
   dict_get ''errore''
     (fst (analyze_ethnic_image (one_file ''QUJD'') (stub_api [] ''Photo from 1998, score 65'' [])
             json_loads None None (Some ''QUJD'') ''Jane Doe'' [])) = None \<and>
   \<not> (1998 \<le> (100::int)) \<and>
   dict_get ''probabilita_percentuale''
     (fst (calculate_jewish_probability (stub_api [] [] ''about 150% sure'') json_loads
             ''search text'' None [])) = Some (JInt 150) \<and>
   dict_get ''errore''
     (fst (calculate_jewish_probability (stub_api [] [] ''about 150% sure'') json_loads
             ''search text'' None [])) = None \<and>
   \<not> (150 \<le> (100::int)) \<and>
   fst (calculate_jewish_probability
          (stub_api [] [] ''{"probabilita_percentuale": 250, "confidenza": 7}'') json_loads
          ''search text'' None [])
     = JObject [(''probabilita_percentuale'', JInt 250), (''confidenza'', JInt 7)]\<close>
  by code_simp

subsection \<open>The image attached\<close>

text \<open>
  C2 (as the code has it). The source attached to the prompt is chosen in the order local
  path, inline base64, remote URL: a path that is supplied wins over the other two, inline
  base64 wins over a URL. When none is supplied the error object is returned and no call is
  made.
\<close>

theorem image_source_order:
  "(p = Some path \<and> path \<noteq> [] \<and> fs path = Inr file_b64 \<longrightarrow>
      snd (analyze_ethnic_image fs api loads p u b person calls) =
        calls @ [VisionReq (''data:image/jpeg;base64,'' @ file_b64) person]) \<and>
   (\<not> supplied p \<and> b = Some inline \<and> inline \<noteq> [] \<longrightarrow>
      snd (analyze_ethnic_image fs api loads p u b person calls) =
        calls @ [VisionReq (''data:image/jpeg;base64,'' @ inline) person]) \<and>
   (\<not> supplied p \<and> \<not> supplied b \<and> u = Some link \<and> link \<noteq> [] \<longrightarrow>
      snd (analyze_ethnic_image fs api loads p u b person calls) =
        calls @ [VisionReq link person]) \<and>
   (\<not> supplied p \<and> \<not> supplied b \<and> \<not> supplied u \<longrightarrow>
      analyze_ethnic_image fs api loads p u b person calls =
        (JObject [(''errore'', JString ''No image provided'')], calls))"
proof -
  have 1: "p = Some path \<and> path \<noteq> [] \<and> fs path = Inr file_b64 \<Longrightarrow>
      image_source fs p u b = Some (Inr (''data:image/jpeg;base64,'' @ file_b64))"
    by (simp add: image_source_def supplied_def encode_image_def)
  have 2: "\<not> supplied p \<and> b = Some inline \<and> inline \<noteq> [] \<Longrightarrow>
      image_source fs p u b = Some (Inr (''data:image/jpeg;base64,'' @ inline))"
    by (simp add: image_source_def supplied_def)
  have 3: "\<not> supplied p \<and> \<not> supplied b \<and> u = Some link \<and> link \<noteq> [] \<Longrightarrow>
      image_source fs p u b = Some (Inr link)"
    by (auto simp: image_source_def supplied_def)
  have 4: "\<not> supplied p \<and> \<not> supplied b \<and> \<not> supplied u \<Longrightarrow>
      analyze_ethnic_image fs api loads p u b person calls =
        (JObject [(''errore'', JString ''No image provided'')], calls)"
    by (simp add: analyze_ethnic_image_def analyze_ethnic_image_body_def image_source_def)
  show ?thesis
    using 1 2 3 4 by (simp add: analyze_ethnic_image_calls)
qed

text \<open>The theorem at four calls, one for each case.\<close>

theorem image_source_order_witness:
  "snd (analyze_ethnic_image (one_file ''RklMRQ=='') (stub_api [] ''{}'' []) json_loads
          (Some ''photo.jpg'') (Some ''http://example.org/a.jpg'') None ''Jane Doe'' [])
     = [VisionReq ''data:image/jpeg;base64,RklMRQ=='' ''Jane Doe''] \<and>
   snd (analyze_ethnic_image (one_file ''RklMRQ=='') (stub_api [] ''{}'' []) json_loads
          None (Some ''http://example.org/a.jpg'') (Some ''QUJD'') ''Jane Doe'' [])
     = [VisionReq ''data:image/jpeg;base64,QUJD'' ''Jane Doe''] \<and>
   snd (analyze_ethnic_image (one_file ''RklMRQ=='') (stub_api [] ''{}'' []) json_loads
          None (Some ''http://example.org/a.jpg'') (Some []) ''Jane Doe'' [])
     = [VisionReq ''http://example.org/a.jpg'' ''Jane Doe''] \<and>
   analyze_ethnic_image (one_file ''RklMRQ=='') (stub_api [] ''{}'' []) json_loads
          None None None ''Jane Doe'' []
     = (JObject [(''errore'', JString ''No image provided'')], [])"
  using image_source_order [of "Some ''photo.jpg''" "''photo.jpg''" "one_file ''RklMRQ==''" "''RklMRQ==''"
      "stub_api [] ''{}'' []" json_loads "Some ''http://example.org/a.jpg''" None "''Jane Doe''" "[]"]
    image_source_order [of None _ "one_file ''RklMRQ==''" _
      "stub_api [] ''{}'' []" json_loads "Some ''http://example.org/a.jpg''" "Some ''QUJD''" "''Jane Doe''" "[]" "''QUJD''"]
    image_source_order [of None _ "one_file ''RklMRQ==''" _
      "stub_api [] ''{}'' []" json_loads "Some ''http://example.org/a.jpg''" "Some []" "''Jane Doe''" "[]" _ "''http://example.org/a.jpg''"]
    image_source_order [of None _ "one_file ''RklMRQ==''" _
      "stub_api [] ''{}'' []" json_loads None None "''Jane Doe''" "[]"]
  by (simp add: supplied_def one_file_def)

text \<open>
  C2 as stated fails: with a path and inline base64 both supplied, the image sent is the
  file's, not the inline one.
\<close>

theorem base64_first_counterexample:
  "snd (analyze_ethnic_image (one_file ''RklMRQ=='') (stub_api [] ''{}'' []) json_loads
          (Some ''photo.jpg'') None (Some ''QUJD'') ''Jane Doe'' [])
     = [VisionReq ''data:image/jpeg;base64,RklMRQ=='' ''Jane Doe''] \<and>
   snd (analyze_ethnic_image (one_file ''RklMRQ=='') (stub_api [] ''{}'' []) json_loads
          (Some ''photo.jpg'') None (Some ''QUJD'') ''Jane Doe'' [])
     \<noteq> [VisionReq ''data:image/jpeg;base64,QUJD'' ''Jane Doe'']"
  by code_simp

subsection \<open>The result of a run\<close>

text \<open>
  C10. Whatever the inputs and the replies, the \<open>timestamp\<close> of the result is the constant
  \<open>2025-09-22\<close>.
\<close>

theorem timestamp_fixed:
  "timestamp (fst (analyze_person_jewish_identity fs api loads nome cognome p u b calls)) = ''2025-09-22''"
  by (simp add: analyze_person_jewish_identity_def Let_def split: prod.splits)

text \<open>The theorem at a run with an image.\<close>

theorem timestamp_fixed_witness:
  \<open>timestamp (fst (analyze_person_jewish_identity (one_file ''QUJD'') (stub_api ''abc'' ''{}'' ''{}'')
      json_loads ''Jane'' ''Doe'' None None (Some ''QUJD'') [])) = ''2025-09-22''\<close>
  by (rule timestamp_fixed)

text \<open>
  C6. \<open>dati_ricerca\<close> is the joined search text itself when that has at most 500 characters,
  and its first 500 characters followed by \<open>...\<close> when it has more.
\<close>

theorem search_excerpt:
  "(length (fst (gather_search_data api (py_strip (nome @ '' '' @ cognome)) calls)) \<le> 500 \<longrightarrow>
      dati_ricerca (fst (analyze_person_jewish_identity fs api loads nome cognome p u b calls)) =
        fst (gather_search_data api (py_strip (nome @ '' '' @ cognome)) calls)) \<and>
   (500 < length (fst (gather_search_data api (py_strip (nome @ '' '' @ cognome)) calls)) \<longrightarrow>
      dati_ricerca (fst (analyze_person_jewish_identity fs api loads nome cognome p u b calls)) =
        take 500 (fst (gather_search_data api (py_strip (nome @ '' '' @ cognome)) calls)) @ ''...'')"
  by (simp add: analyze_person_jewish_identity_def Let_def split: prod.splits)

text \<open>The theorem at a run with a short search text and at one with a text of 904 characters.\<close>

theorem search_excerpt_witness:
  \<open>dati_ricerca (fst (analyze_person_jewish_identity (one_file ''QUJD'') (stub_api ''abc'' ''{}'' ''{}'')
      json_loads ''Jane'' ''Doe'' None None None []))
     = ''abc'' @ [CHR 0x0A, CHR 0x0A] @ ''abc'' @ [CHR 0x0A, CHR 0x0A] @ ''abc'' \<and>
   dati_ricerca (fst (analyze_person_jewish_identity (one_file ''QUJD'')
      (stub_api (replicate 300 (CHR ''a'')) ''{}'' ''{}'') json_loads ''Jane'' ''Doe'' None None None []))
     = replicate 300 (CHR ''a'') @ [CHR 0x0A, CHR 0x0A] @ replicate 198 (CHR ''a'') @ ''...''\<close>
proof -
  have g1: \<open>fst (gather_search_data (stub_api ''abc'' ''{}'' ''{}'') (py_strip ''Jane Doe'') [])
      = ''abc'' @ [CHR 0x0A, CHR 0x0A] @ ''abc'' @ [CHR 0x0A, CHR 0x0A] @ ''abc''\<close>
    by code_simp
  have g2: \<open>fst (gather_search_data (stub_api (replicate 300 (CHR ''a'')) ''{}'' ''{}'')
                (py_strip ''Jane Doe'') [])
      = replicate 300 (CHR ''a'') @ [CHR 0x0A, CHR 0x0A] @ replicate 300 (CHR ''a'')
          @ [CHR 0x0A, CHR 0x0A] @ replicate 300 (CHR ''a'')\<close>
    by (simp add: gather_search_data_def search_queries_def web_search_def web_search_body_def
        create_def stub_api_def)
  have "take 500 (replicate 300 (CHR ''a'') @ [CHR 0x0A, CHR 0x0A] @ replicate 300 (CHR ''a'')
                   @ [CHR 0x0A, CHR 0x0A] @ replicate 300 (CHR ''a''))
          = replicate 300 (CHR ''a'') @ [CHR 0x0A, CHR 0x0A] @ replicate 198 (CHR ''a'')"
    by simp
  then show ?thesis
    using search_excerpt [of "stub_api ''abc'' ''{}'' ''{}''" "''Jane''" "''Doe''" "[]"
            "one_file ''QUJD''" json_loads None None None]
          search_excerpt [of "stub_api (replicate 300 (CHR ''a'')) ''{}'' ''{}''" "''Jane''" "''Doe''"
            "[]" "one_file ''QUJD''" json_loads None None None]
    by (simp add: g1 g2)
qed

text \<open>
  C9. When no image input is supplied, \<open>analisi_immagine\<close> is \<open>None\<close> and the calls of the run
  are the three searches and the scoring call, whose prompt has no image analysis: the
  vision endpoint is not called and \<open>analyze_ethnic_image\<close> contributes nothing.
\<close>

theorem no_image_no_analysis:
  assumes "\<not> supplied p" "\<not> supplied u" "\<not> supplied b"
  shows "analisi_immagine (fst (analyze_person_jewish_identity fs api loads nome cognome p u b calls)) = None \<and>
         snd (analyze_person_jewish_identity fs api loads nome cognome p u b calls) =
           calls @ map (\<lambda>q. SearchReq q 1500) (search_queries (py_strip (nome @ '' '' @ cognome)))
             @ [ScoreReq (fst (gather_search_data api (py_strip (nome @ '' '' @ cognome)) calls)) None]"
  using assms gather_calls [of api "py_strip (nome @ '' '' @ cognome)" calls]
  by (auto simp: analyze_person_jewish_identity_def Let_def calculate_jewish_probability_def
      calculate_jewish_probability_body_def create_def image_block_def split: prod.splits sum.splits api_outcome.splits)

text \<open>The theorem at a run without image.\<close>

theorem no_image_no_analysis_witness:
  \<open>analisi_immagine (fst (analyze_person_jewish_identity (one_file ''QUJD'')
      (stub_api ''abc'' ''{}'' ''{}'') json_loads ''Jane'' ''Doe'' None None (Some []) [])) = None \<and>
   snd (analyze_person_jewish_identity (one_file ''QUJD'')
      (stub_api ''abc'' ''{}'' ''{}'') json_loads ''Jane'' ''Doe'' None None (Some []) [])
     = [SearchReq ''Jane Doe ethnic origin Jewish heritage'' 1500,
        SearchReq ''Jane Doe family background ancestry'' 1500,
        SearchReq ''Jane Doe religious affiliation cultural background'' 1500,
        ScoreReq (''abc'' @ [CHR 0x0A, CHR 0x0A] @ ''abc'' @ [CHR 0x0A, CHR 0x0A] @ ''abc'') None]\<close>
proof -
  have g: \<open>fst (gather_search_data (stub_api ''abc'' ''{}'' ''{}'') ''Jane Doe'' [])
      = ''abc'' @ [CHR 0x0A, CHR 0x0A] @ ''abc'' @ [CHR 0x0A, CHR 0x0A] @ ''abc''\<close>
    by code_simp
  have n: "py_strip ''Jane Doe'' = ''Jane Doe''"
    by code_simp
  show ?thesis
    using no_image_no_analysis [of None None "Some []" "one_file ''QUJD''"
            "stub_api ''abc'' ''{}'' ''{}''" json_loads "''Jane''" "''Doe''" "[]"]
    by (simp add: supplied_def g n search_queries_def)
qed

subsection \<open>Failures of the remote calls\<close>

text \<open>
  C8. \<open>web_search\<close> and \<open>analyze_ethnic_image\<close> have no exceptional outcome: when the remote
  call raises, \<open>web_search\<close> returns the text \<open>Error during web search: ...\<close> and
  \<open>analyze_ethnic_image\<close> returns the object \<open>{errore: Error in image analysis: ...}\<close>, and so
  for whatever else is raised inside their bodies.
\<close>

theorem remote_failures_returned:
  "(api calls (SearchReq query max_tokens) = Raises e \<longrightarrow>
      web_search api query max_tokens calls =
        (''Error during web search: '' @ exn_str e, calls @ [SearchReq query max_tokens])) \<and>
   (image_source fs p u b = Some (Inr url) \<and> api calls (VisionReq url person) = Raises e \<longrightarrow>
      analyze_ethnic_image fs api loads p u b person calls =
        (JObject [(''errore'', JString (''Error in image analysis: '' @ exn_str e))],
         calls @ [VisionReq url person])) \<and>
   (web_search_body api query max_tokens calls = (Inl e, calls') \<longrightarrow>
      web_search api query max_tokens calls = (''Error during web search: '' @ exn_str e, calls')) \<and>
   (analyze_ethnic_image_body fs api loads p u b person calls = (Inl e, calls') \<longrightarrow>
      analyze_ethnic_image fs api loads p u b person calls =
        (JObject [(''errore'', JString (''Error in image analysis: '' @ exn_str e))], calls'))"
  by (simp add: web_search_def web_search_body_def create_def analyze_ethnic_image_def
      analyze_ethnic_image_body_def vision_call_def)

text \<open>The theorem at an endpoint that refuses every call.\<close>

theorem remote_failures_returned_witness:
  "web_search (failing_api ''Connection error.'') ''Jane Doe family background ancestry'' 1500 []
     = (''Error during web search: Connection error.'',
        [SearchReq ''Jane Doe family background ancestry'' 1500]) \<and>
   analyze_ethnic_image (one_file ''QUJD'') (failing_api ''Connection error.'') json_loads
       None None (Some ''QUJD'') ''Jane Doe'' []
     = (JObject [(''errore'', JString ''Error in image analysis: Connection error.'')],
        [VisionReq ''data:image/jpeg;base64,QUJD'' ''Jane Doe''])"
proof -
  have s: "image_source (one_file ''QUJD'') None None (Some ''QUJD'')
             = Some (Inr ''data:image/jpeg;base64,QUJD'')"
    by (simp add: image_source_def supplied_def)
  show ?thesis
    using remote_failures_returned [of "failing_api ''Connection error.''" "[]"
            "''Jane Doe family background ancestry''" 1500 "Exn OtherException ''Connection error.''"
            "one_file ''QUJD''" None None "Some ''QUJD''" "''data:image/jpeg;base64,QUJD''"
            "''Jane Doe''" json_loads]
    by (simp add: s failing_api_def)
qed

subsection \<open>The HTTP adapter\<close>

text \<open>
  Every answer other than 200 is given without a remote call; a body that decodes to a value
  that is not an object is answered 500.
\<close>

lemma do_POST_body_calls:
  "do_POST_body fs api loads str_of getenv post_text calls = (Inl e, calls') \<Longrightarrow> calls' = calls"
  by (auto simp: do_POST_body_def Let_def split: sum.splits if_splits prod.splits)

lemma do_POST_body_status:
  "do_POST_body fs api loads str_of getenv post_text calls = (Inr resp, calls') \<Longrightarrow>
   status resp \<noteq> 200 \<Longrightarrow> calls' = calls"
  by (auto simp: do_POST_body_def Let_def send_error_def split: sum.splits if_splits prod.splits)

lemma refused_without_calls:
  "status (fst (do_POST fs api loads str_of getenv post_text calls)) \<noteq> 200 \<Longrightarrow>
   snd (do_POST fs api loads str_of getenv post_text calls) = calls"
proof -
  assume a: "status (fst (do_POST fs api loads str_of getenv post_text calls)) \<noteq> 200"
  obtain res calls' where b: "do_POST_body fs api loads str_of getenv post_text calls = (res, calls')"
    by (cases "do_POST_body fs api loads str_of getenv post_text calls")
  show ?thesis
  proof (cases res)
    case (Inl e)
    with b show ?thesis by (simp add: do_POST_def do_POST_body_calls)
  next
    case (Inr resp)
    with a b have "status resp \<noteq> 200" by (simp add: do_POST_def)
    with b Inr show ?thesis by (simp add: do_POST_def do_POST_body_status)
  qed
qed

lemma non_object_body_refused:
  "loads text = Inr data \<Longrightarrow> \<forall>kvs. data \<noteq> JObject kvs \<Longrightarrow>
   status (fst (do_POST fs api loads str_of getenv (Inr text) calls)) = 500 \<and>
   snd (do_POST fs api loads str_of getenv (Inr text) calls) = calls"
  by (cases data) (simp_all add: do_POST_def do_POST_body_def data_get_def send_error_def)




end
